theory Spec2Isabelle
  imports Main
begin

section \<open>timed-writer: a shallow embedding of \<^verbatim>\<open>timed-writer.c\<close>\<close>

text \<open>
  The program parses its command line, opens one file, and then writes one block to it per
  iteration, sleeping between iterations. Everything the C code does to the outside world
  (text on the two output streams, system calls) is recorded as a list of events, in program
  order. What the outside world answers (the return values of \<^verbatim>\<open>open\<close>,
  \<^verbatim>\<open>flock\<close> and \<^verbatim>\<open>write\<close>, and \<^verbatim>\<open>errno\<close>) is a
  parameter of the model, the record \<open>env\<close>.

  C integers are modelled as \<open>int\<close>. Where the code converts between integer types the
  conversion is written out (\<open>to_int\<close>, \<open>to_unsigned\<close>, \<open>to_size_t\<close>, \<open>to_ssize_t\<close>). The two
  increments of the loop (\<^verbatim>\<open>failures++\<close> and \<^verbatim>\<open>++iter\<close>) are written
  without wrap-around: each is executed only while the variable is strictly below another
  \<^verbatim>\<open>int\<close> (\<open>failmax\<close>, \<open>iterations\<close>), so the result is representable.

  Not modelled: the timing measurements (\<^verbatim>\<open>gettimeofday\<close>, \<^verbatim>\<open>times\<close>,
  the floating point deltas), a failing \<^verbatim>\<open>malloc\<close>, a \<^verbatim>\<open>flock\<close> that blocks,
  and the diagnostics that \<^verbatim>\<open>getopt\<close> prints by itself.
\<close>

subsection \<open>Constants of the source\<close>

definition INTERVAL_DEFAULT :: int where "INTERVAL_DEFAULT = 5"
definition INTERVAL_MIN :: int where "INTERVAL_MIN = 1"
definition INTERVAL_MAX :: int where "INTERVAL_MAX = 60 * 60"
definition ITERATION_MAX :: int where "ITERATION_MAX = 666"
definition FAILURE_MAX :: int where "FAILURE_MAX = 100"
definition FAILURE_DEFAULT :: int where "FAILURE_DEFAULT = 5"
definition BS_DEF :: int where "BS_DEF = 1024"
definition BS_MAX :: int where "BS_MAX = 1024 * 1024 * 32"
definition EXIT_SUCCESS :: int where "EXIT_SUCCESS = 0"
definition EXIT_FAILURE :: int where "EXIT_FAILURE = 1"

subsection \<open>Integer conversions\<close>

text \<open>
  Conversion to \<^verbatim>\<open>int\<close> (32 bits), to \<^verbatim>\<open>size_t\<close> (64 bits, unsigned) and to
  \<^verbatim>\<open>ssize_t\<close> (64 bits, signed) on an LP64 platform: the value is reduced modulo the
  width of the target type.
\<close>

definition to_int :: "int \<Rightarrow> int" where
  "to_int x = (x + 2 ^ 31) mod 2 ^ 32 - 2 ^ 31"

definition to_size_t :: "int \<Rightarrow> nat" where
  "to_size_t x = nat (x mod 2 ^ 64)"

definition to_ssize_t :: "nat \<Rightarrow> int" where
  "to_ssize_t n = (int n + 2 ^ 63) mod 2 ^ 64 - 2 ^ 63"

text \<open>Conversion of an \<^verbatim>\<open>int\<close> to \<^verbatim>\<open>unsigned int\<close> (32 bits), as for the
  argument of \<^verbatim>\<open>sleep\<close>.\<close>

definition to_unsigned :: "int \<Rightarrow> int" where
  "to_unsigned x = x mod 2 ^ 32"

subsection \<open>Bytes and text\<close>

type_synonym byte = char

definition NUL :: byte where "NUL = CHR 0x00"
definition CR :: byte where "CR = CHR 0x0D"
definition LF :: byte where "LF = CHR 0x0A"

text \<open>The decimal digits of a natural number, most significant first.\<close>

fun dec_digits :: "nat \<Rightarrow> string" where
  "dec_digits n =
     (if n < 10 then [''0123456789'' ! n]
      else dec_digits (n div 10) @ [''0123456789'' ! (n mod 10)])"

declare dec_digits.simps [simp del]

text \<open>What \<^verbatim>\<open>printf\<close>'s \<^verbatim>\<open>%d\<close> renders for an \<^verbatim>\<open>int\<close>.\<close>

definition show_int :: "int \<Rightarrow> string" where
  "show_int i = (if i < 0 then CHR ''-'' # dec_digits (nat (- i)) else dec_digits (nat i))"

text \<open>\<^verbatim>\<open>sprintf(str_buf, "%d\n", iter)\<close>: the text stored in \<open>str_buf\<close>, without its
  terminating NUL.\<close>

definition sprintf_d_nl :: "int \<Rightarrow> string" where
  "sprintf_d_nl i = show_int i @ [LF]"

text \<open>
  \<^verbatim>\<open>strcpy(dst, src)\<close> on a destination buffer given as its list of bytes: the text and
  its terminating NUL replace the first \<open>length src + 1\<close> bytes, the rest of the buffer is
  kept. (A destination shorter than that would be overrun in C; the loop never does that,
  see \<open>loop_head_buf_length\<close>.)
\<close>

definition strcpy :: "byte list \<Rightarrow> string \<Rightarrow> byte list" where
  "strcpy dst src = src @ [NUL] @ drop (length src + 1) dst"

subsection \<open>\<^verbatim>\<open>atol\<close>\<close>

text \<open>
  The C library's \<^verbatim>\<open>atol\<close>: skip leading white space, read an optional sign, then the
  longest run of decimal digits; no digits give 0. There is no way to report a failed
  conversion. A value that does not fit a 64-bit \<^verbatim>\<open>long\<close> is clamped, as
  \<^verbatim>\<open>strtol\<close> does in glibc.
\<close>

definition isspace :: "char \<Rightarrow> bool" where
  "isspace c \<longleftrightarrow> c \<in> set [CHR '' '', CHR 0x09, CHR 0x0A, CHR 0x0B, CHR 0x0C, CHR 0x0D]"

definition isdigit :: "char \<Rightarrow> bool" where
  "isdigit c \<longleftrightarrow> c \<in> set ''0123456789''"

definition digits_value :: "string \<Rightarrow> int" where
  "digits_value ds = foldl (\<lambda>a d. 10 * a + (of_char d - 48)) 0 ds"

definition clamp_long :: "int \<Rightarrow> int" where
  "clamp_long x = max (- (2 ^ 63)) (min (2 ^ 63 - 1) x)"

definition atol :: "string \<Rightarrow> int" where
  "atol s =
     (case dropWhile isspace s of
        [] \<Rightarrow> 0
      | c # r \<Rightarrow>
          if c = CHR ''-'' then clamp_long (- digits_value (takeWhile isdigit r))
          else if c = CHR ''+'' then clamp_long (digits_value (takeWhile isdigit r))
          else clamp_long (digits_value (takeWhile isdigit (c # r))))"

text \<open>The digits that \<^verbatim>\<open>atol\<close> reads from \<open>s\<close>; none when \<open>s\<close> is not numeric.\<close>

definition numeral_part :: "string \<Rightarrow> string" where
  "numeral_part s =
     (case dropWhile isspace s of
        [] \<Rightarrow> []
      | c # r \<Rightarrow>
          if c = CHR ''-'' \<or> c = CHR ''+'' then takeWhile isdigit r
          else takeWhile isdigit (c # r))"

subsection \<open>\<^verbatim>\<open>getopt\<close> with the option string \<^verbatim>\<open>"s:c:b:f:lh"\<close>\<close>

text \<open>
  One result of \<^verbatim>\<open>getopt\<close> is the option character it returns together with
  \<^verbatim>\<open>optarg\<close> (empty for an option without argument). An unknown option character and
  a missing argument both give \<^verbatim>\<open>'?'\<close>.

  \<open>scan_cluster\<close> reads the characters after the \<^verbatim>\<open>-\<close> of one argument: \<open>l\<close> and
  \<open>h\<close> take no argument; \<open>s\<close>, \<open>c\<close>, \<open>b\<close>, \<open>f\<close> take the rest of the argument when
  there is one, and otherwise the next element of \<^verbatim>\<open>argv\<close> (second component of the
  result: the option that still waits for it).
\<close>

type_synonym opt = "char \<times> string"

fun scan_cluster :: "string \<Rightarrow> opt list \<times> char option" where
  "scan_cluster [] = ([], None)"
| "scan_cluster (c # cs) =
     (if c \<in> set ''lh'' then (case scan_cluster cs of (os, w) \<Rightarrow> ((c, []) # os, w))
      else if c \<in> set ''scbf'' then (if cs = [] then ([], Some c) else ([(c, cs)], None))
      else (case scan_cluster cs of (os, w) \<Rightarrow> ((CHR ''?'', []) # os, w)))"

text \<open>
  All calls of \<^verbatim>\<open>getopt\<close> on \<^verbatim>\<open>argv[1..]\<close>, in glibc's default mode, which
  permutes \<^verbatim>\<open>argv\<close>: the options in the order \<^verbatim>\<open>getopt\<close> returns them, and the
  arguments that are not options, which are what is left from \<^verbatim>\<open>argv[optind]\<close> on
  when \<^verbatim>\<open>getopt\<close> returns -1. An argument that does not start with \<^verbatim>\<open>-\<close>, or is
  \<^verbatim>\<open>-\<close> alone, is not an option; \<^verbatim>\<open>--\<close> ends the options.
\<close>

fun getopt_scan :: "char option \<Rightarrow> string list \<Rightarrow> opt list \<times> string list" where
  "getopt_scan None [] = ([], [])"
| "getopt_scan (Some c) [] = ([(CHR ''?'', [])], [])"
| "getopt_scan (Some c) (a # rest) =
     (case getopt_scan None rest of (os, ps) \<Rightarrow> ((c, a) # os, ps))"
| "getopt_scan None (a # rest) =
     (if a = ''--'' then ([], rest)
      else if 2 \<le> length a \<and> hd a = CHR ''-'' then
        (case scan_cluster (tl a) of (os1, w) \<Rightarrow>
           (case getopt_scan w rest of (os, ps) \<Rightarrow> (os1 @ os, ps)))
      else (case getopt_scan None rest of (os, ps) \<Rightarrow> (os, a # ps)))"

definition getopt_all :: "string list \<Rightarrow> opt list \<times> string list" where
  "getopt_all args = getopt_scan None args"

subsection \<open>Events\<close>

text \<open>
  One constructor of \<open>out_msg\<close> for each \<^verbatim>\<open>printf\<close> (standard output) and one of
  \<open>err_msg\<close> for each \<^verbatim>\<open>fprintf(stderr, ...)\<close> of the source, with the arguments of
  the call; the format string is not rendered. \<open>Usage\<close> stands for the whole of
  \<^verbatim>\<open>usage()\<close>, \<open>Write_took\<close> for the line with the measured times.
\<close>

datatype out_msg =
    Usage string
  | Filename string
  | Exclusive_lock bool
  | Sleep_after_each_write int
  | Max_iterations int
  | Max_consecutive_write_fails int
  | Write_size int
  | Writing_sequence int nat
  | Short_write int int
  | Write_took

datatype err_msg =
    Unable_to_open string int
  | Unable_to_lock string int
  | Write_failed int
  | Reached_max_failcount
  | Invalid_sleep_time string
  | Invalid_max_iterations string
  | Invalid_max_failures string
  | Invalid_block_size string
  | Gibberish
  | Expecting_one_filename

text \<open>
  \<open>Malloc n\<close>: \<^verbatim>\<open>malloc(n)\<close>; \<open>Open f\<close>: \<^verbatim>\<open>open(f, O_WRONLY|O_CREAT|O_TRUNC|O_SYNC, 0666)\<close>;
  \<open>Flock\<close>: \<^verbatim>\<open>flock(fd, LOCK_EX)\<close>; \<open>Write n bs\<close>: \<^verbatim>\<open>write(fd, write_buf, n)\<close>
  where \<open>bs\<close> are the first \<open>n\<close> bytes of the buffer; \<open>Sleep n\<close>: \<^verbatim>\<open>sleep(n)\<close>
  (\<open>n\<close> the \<^verbatim>\<open>unsigned int\<close> passed);
  \<open>Close\<close> and \<open>Free\<close>: \<^verbatim>\<open>close(fd)\<close> and \<^verbatim>\<open>free(write_buf)\<close>.
\<close>

datatype event =
    Out out_msg
  | Err err_msg
  | Malloc nat
  | Open string
  | Flock
  | Write nat "byte list"
  | Sleep int
  | Close
  | Free

fun is_Err :: "event \<Rightarrow> bool" where
  "is_Err (Err m) = True"
| "is_Err e = False"

fun is_Open :: "event \<Rightarrow> bool" where
  "is_Open (Open f) = True"
| "is_Open e = False"

fun is_Write :: "event \<Rightarrow> bool" where
  "is_Write (Write n bs) = True"
| "is_Write e = False"


fun is_Malloc :: "event \<Rightarrow> bool" where
  "is_Malloc (Malloc n) = True"
| "is_Malloc e = False"

subsection \<open>The environment\<close>

text \<open>
  What the system calls return in one run. \<open>write_ret e i\<close> and \<open>write_errno e i\<close> are
  the return value of \<^verbatim>\<open>write\<close> and the value of \<^verbatim>\<open>errno\<close> after it in
  iteration \<open>i\<close> (each iteration calls \<^verbatim>\<open>write\<close> once).
\<close>

record env =
  open_ret :: int
  open_errno :: int
  flock_ret :: int
  flock_errno :: int
  write_ret :: "int \<Rightarrow> int"
  write_errno :: "int \<Rightarrow> int"

subsection \<open>\<^verbatim>\<open>line_writer\<close>\<close>

text \<open>The parameters of \<^verbatim>\<open>line_writer\<close>.\<close>

record config =
  filename :: string
  interval :: int
  excl_lock :: int
  iterations :: int
  failmax :: int
  blocksize :: int

text \<open>The variables the loop changes.\<close>

record loop_state =
  iter :: int
  failures :: int
  write_buf :: "byte list"

text \<open>
  Lines 131 to 143: what a \<^verbatim>\<open>write\<close> that returned \<open>ws\<close> does to the failure
  counter. \<open>Inl status\<close> is \<^verbatim>\<open>exit(status)\<close>, \<open>Inr f\<close> the new value of
  \<^verbatim>\<open>failures\<close>.
\<close>

definition count_failure :: "int \<Rightarrow> int \<Rightarrow> int \<Rightarrow> int \<Rightarrow> event list \<times> (int + int)" where
  "count_failure fmax fails ws errno =
     (if ws = - 1 then
        (if fmax > 0 then
           (if fails + 1 = fmax
            then ([Err (Write_failed errno), Err Reached_max_failcount], Inl EXIT_FAILURE)
            else ([Err (Write_failed errno)], Inr (fails + 1)))
         else ([Err (Write_failed errno)], Inr fails))
      else ([], Inr 0))"

text \<open>Lines 144 and 145: the notice for a write that returned another count than requested.\<close>

definition short_write_notice :: "int \<Rightarrow> nat \<Rightarrow> event list" where
  "short_write_notice ws write_actual =
     (if ws \<noteq> - 1 \<and> ws \<noteq> to_ssize_t write_actual
      then [Out (Short_write (to_int ws) (to_int (int write_actual)))] else [])"

text \<open>Line 123: the number of bytes to request.\<close>

definition write_actual_of :: "int \<Rightarrow> nat \<Rightarrow> nat" where
  "write_actual_of bsize str_len = (if bsize \<noteq> 0 then to_size_t bsize else str_len)"

text \<open>
  One pass through the body of the \<^verbatim>\<open>for\<close> loop (lines 120 to 158), given what
  \<^verbatim>\<open>write\<close> returns (\<open>ws\<close>) and \<^verbatim>\<open>errno\<close> after it. The result is the events
  of the pass and either \<open>Inl status\<close>, when the pass called \<^verbatim>\<open>exit(status)\<close>, or
  \<open>Inr st'\<close>, the state after \<^verbatim>\<open>++iter\<close> and the sleep.
\<close>

definition body :: "config \<Rightarrow> loop_state \<Rightarrow> int \<Rightarrow> int \<Rightarrow> event list \<times> (int + loop_state)" where
  "body c st ws errno =
     (let str_buf = sprintf_d_nl (iter st);
          buf = strcpy (write_buf st) str_buf;
          str_len = length str_buf;
          write_actual = write_actual_of (blocksize c) str_len;
          evs = [Out (Writing_sequence (iter st) write_actual),
                 Write write_actual (take write_actual buf)]
      in case count_failure (failmax c) (failures st) ws errno of
           (evs_f, Inl status) \<Rightarrow> (evs @ evs_f, Inl status)
         | (evs_f, Inr fails) \<Rightarrow>
             (evs @ evs_f @ short_write_notice ws write_actual @ [Out Write_took]
                @ (if iter st + 1 < iterations c then [Sleep (to_unsigned (interval c))] else []),
              Inr \<lparr>iter = iter st + 1, failures = fails, write_buf = buf\<rparr>))"

text \<open>The \<^verbatim>\<open>for\<close> loop (line 119), from the state \<open>st\<close> on.\<close>

function loop :: "env \<Rightarrow> config \<Rightarrow> loop_state \<Rightarrow> event list \<times> (int + loop_state)" where
  "loop e c st =
     (if iter st < iterations c then
        (case body c st (write_ret e (iter st)) (write_errno e (iter st)) of
           (evs, Inl status) \<Rightarrow> (evs, Inl status)
         | (evs, Inr st') \<Rightarrow> (case loop e c st' of (evs', r) \<Rightarrow> (evs @ evs', r)))
      else ([], Inr st))"
  by pat_completeness auto
termination
  by (relation "measure (\<lambda>(e, c, st). nat (iterations c - iter st))")
     (auto simp: body_def Let_def split: prod.splits sum.splits)

declare loop.simps [simp del]

text \<open>Line 87: the size of the buffer.\<close>

definition write_buf_size_of :: "int \<Rightarrow> nat" where
  "write_buf_size_of bsize = (if bsize > BS_DEF then to_size_t bsize else nat BS_DEF)"

text \<open>The state in which the loop starts: the buffer after \<^verbatim>\<open>memset\<close> (line 97).\<close>

definition init_state :: "config \<Rightarrow> loop_state" where
  "init_state c =
     \<lparr>iter = 0, failures = 0, write_buf = replicate (write_buf_size_of (blocksize c)) CR\<rparr>"

text \<open>
  The states in which the loop test (line 119) is reached in the run of \<open>line_writer\<close>
  with environment \<open>e\<close> and parameters \<open>c\<close>: \<open>loop_head e c evs st\<close> when the test is
  reached in state \<open>st\<close> after the loop has produced the events \<open>evs\<close>.
\<close>

inductive loop_head :: "env \<Rightarrow> config \<Rightarrow> event list \<Rightarrow> loop_state \<Rightarrow> bool"
  for e :: env and c :: config where
  start: "loop_head e c [] (init_state c)"
| pass: "loop_head e c evs st \<Longrightarrow> iter st < iterations c \<Longrightarrow>
         body c st (write_ret e (iter st)) (write_errno e (iter st)) = (evs', Inr st') \<Longrightarrow>
         loop_head e c (evs @ evs') st'"

code_pred loop_head .

text \<open>
  \<open>failed_run e i n\<close>: the \<^verbatim>\<open>write\<close> calls of the \<open>n\<close> iterations up to and
  including iteration \<open>i\<close> all returned -1.
\<close>

definition failed_run :: "env \<Rightarrow> int \<Rightarrow> int \<Rightarrow> bool" where
  "failed_run e i n \<longleftrightarrow> n \<le> i + 1 \<and> (\<forall>j \<in> {i - n + 1 .. i}. write_ret e j = - 1)"

text \<open>Lines 89 to 96.\<close>

definition prologue :: "config \<Rightarrow> event list" where
  "prologue c =
     [Out (Filename (filename c)),
      Out (Exclusive_lock (excl_lock c \<noteq> 0)),
      Out (Sleep_after_each_write (interval c)),
      Out (Max_iterations (iterations c)),
      Out (Max_consecutive_write_fails (failmax c)),
      Out (Write_size (blocksize c)),
      Malloc (write_buf_size_of (blocksize c))]"

text \<open>
  \<^verbatim>\<open>line_writer\<close>. The result is the events and either \<open>Inl status\<close>, when the process
  ended inside the function with \<^verbatim>\<open>exit(status)\<close>, or \<open>Inr r\<close>, when the function
  returned \<open>r\<close>.
\<close>

definition line_writer :: "env \<Rightarrow> config \<Rightarrow> event list \<times> (int + int)" where
  "line_writer e c =
     (if open_ret e = - 1 then
        (prologue c @ [Open (filename c), Err (Unable_to_open (filename c) (open_errno e))],
         Inr 1)
      else if excl_lock c \<noteq> 0 \<and> flock_ret e = - 1 then
        (prologue c @ [Open (filename c), Flock,
                       Err (Unable_to_lock (filename c) (flock_errno e))],
         Inr 1)
      else
        (case loop e c (init_state c) of
           (evs, Inl status) \<Rightarrow>
             (prologue c @ [Open (filename c)] @ (if excl_lock c \<noteq> 0 then [Flock] else [])
                @ evs, Inl status)
         | (evs, Inr st) \<Rightarrow>
             (prologue c @ [Open (filename c)] @ (if excl_lock c \<noteq> 0 then [Flock] else [])
                @ evs @ [Close, Free], Inr 0)))"

subsection \<open>\<^verbatim>\<open>main\<close>\<close>

text \<open>The local variables of \<^verbatim>\<open>main\<close> that the options set (\<open>v_\<close> for variable).\<close>

record main_vars =
  v_interval :: int
  v_iterations :: int
  v_failmax :: int
  v_excl_lock :: int
  v_blocksize :: int

definition main_defaults :: main_vars where
  "main_defaults =
     \<lparr>v_interval = INTERVAL_DEFAULT, v_iterations = ITERATION_MAX,
      v_failmax = FAILURE_DEFAULT, v_excl_lock = 0, v_blocksize = 0\<rparr>"

text \<open>
  The \<^verbatim>\<open>switch\<close> (lines 178 to 223) on one result of \<^verbatim>\<open>getopt\<close>. \<open>Inl\<close> is
  \<^verbatim>\<open>exit\<close> with the status and what was printed before it. \<^verbatim>\<open>blocksize\<close> is an
  \<^verbatim>\<open>int\<close> in \<^verbatim>\<open>main\<close>, the other three are \<^verbatim>\<open>long\<close>: the value of
  \<^verbatim>\<open>atol\<close> is converted to \<^verbatim>\<open>int\<close> before it is checked.
\<close>

definition switch_opt :: "string \<Rightarrow> opt \<Rightarrow> main_vars \<Rightarrow> (int \<times> event list) + main_vars" where
  "switch_opt progname ov v =
     (case ov of (opt, optarg) \<Rightarrow>
        if opt = CHR ''h'' then Inl (EXIT_SUCCESS, [Out (Usage progname)])
        else if opt = CHR ''s'' then
          (let i = atol optarg in
           if i = 0 \<or> i > INTERVAL_MAX \<or> i < INTERVAL_MIN
           then Inl (EXIT_FAILURE, [Err (Invalid_sleep_time optarg)])
           else Inr (v\<lparr>v_interval := i\<rparr>))
        else if opt = CHR ''c'' then
          (let n = atol optarg in
           if n \<le> 0 \<or> n > ITERATION_MAX
           then Inl (EXIT_FAILURE, [Err (Invalid_max_iterations optarg)])
           else Inr (v\<lparr>v_iterations := n\<rparr>))
        else if opt = CHR ''f'' then
          (let n = atol optarg in
           if n < 0 \<or> n > FAILURE_MAX
           then Inl (EXIT_FAILURE, [Err (Invalid_max_failures optarg)])
           else Inr (v\<lparr>v_failmax := n\<rparr>))
        else if opt = CHR ''b'' then
          (let n = to_int (atol optarg) in
           if n < 0 \<or> n > BS_MAX
           then Inl (EXIT_FAILURE, [Err (Invalid_block_size optarg)])
           else Inr (v\<lparr>v_blocksize := n\<rparr>))
        else if opt = CHR ''l'' then Inr (v\<lparr>v_excl_lock := 1\<rparr>)
        else Inl (EXIT_FAILURE, [Err Gibberish]))"

text \<open>The \<^verbatim>\<open>while\<close> loop around the switch (line 177), over the results of
  \<^verbatim>\<open>getopt\<close> in order.\<close>

fun parse_opts :: "string \<Rightarrow> opt list \<Rightarrow> main_vars \<Rightarrow> (int \<times> event list) + main_vars" where
  "parse_opts progname [] v = Inr v"
| "parse_opts progname (ov # ovs) v =
     (case switch_opt progname ov v of
        Inl x \<Rightarrow> Inl x
      | Inr v' \<Rightarrow> parse_opts progname ovs v')"

text \<open>The arguments of the call of \<^verbatim>\<open>line_writer\<close> (lines 230 to 235).\<close>

definition config_of :: "string \<Rightarrow> main_vars \<Rightarrow> config" where
  "config_of fname v =
     \<lparr>filename = fname, interval = to_int (v_interval v), excl_lock = v_excl_lock v,
      iterations = to_int (v_iterations v), failmax = to_int (v_failmax v),
      blocksize = to_int (v_blocksize v)\<rparr>"

text \<open>
  \<^verbatim>\<open>main\<close> on \<^verbatim>\<open>argv\<close>: the exit status of the process and its events. The value
  \<^verbatim>\<open>line_writer\<close> returns is not used (line 230); \<^verbatim>\<open>main\<close> then returns 0
  (line 237).
\<close>

definition main :: "env \<Rightarrow> string list \<Rightarrow> int \<times> event list" where
  "main e argv =
     (case argv of
        [] \<Rightarrow> (EXIT_FAILURE, [Err Expecting_one_filename])
      | progname # args \<Rightarrow>
          (case getopt_all args of (ovs, rest) \<Rightarrow>
             (case parse_opts progname ovs main_defaults of
                Inl (status, evs) \<Rightarrow> (status, evs)
              | Inr v \<Rightarrow>
                  if length rest \<noteq> 1 then (EXIT_FAILURE, [Err Expecting_one_filename])
                  else
                    (case line_writer e (config_of (hd rest) v) of
                       (evs, Inl status) \<Rightarrow> (status, evs)
                     | (evs, Inr r) \<Rightarrow> (0, evs)))))"

text \<open>
  \<open>file_acquired e c\<close>: \<^verbatim>\<open>open\<close> succeeds and, when the lock is requested,
  \<^verbatim>\<open>flock\<close> succeeds, so that \<open>line_writer\<close> enters its loop.
\<close>

definition file_acquired :: "env \<Rightarrow> config \<Rightarrow> bool" where
  "file_acquired e c \<longleftrightarrow> open_ret e \<noteq> - 1 \<and> (excl_lock c = 0 \<or> flock_ret e \<noteq> - 1)"

subsection \<open>Example parameters\<close>

text \<open>An environment in which \<^verbatim>\<open>open\<close> returns \<open>r\<close> and the \<^verbatim>\<open>write\<close> of
  iteration \<open>i\<close> returns \<open>w i\<close>, and parameters for \<open>n\<close> iterations with failure limit
  \<open>f\<close> and block size \<open>b\<close>.\<close>

definition example_env :: "int \<Rightarrow> (int \<Rightarrow> int) \<Rightarrow> env" where
  "example_env r w =
     \<lparr>open_ret = r, open_errno = 2, flock_ret = 0, flock_errno = 0,
      write_ret = w, write_errno = (\<lambda>i. 5)\<rparr>"

definition example_config :: "int \<Rightarrow> int \<Rightarrow> int \<Rightarrow> config" where
  "example_config n f b =
     \<lparr>filename = ''out.txt'', interval = 5, excl_lock = 0, iterations = n,
      failmax = f, blocksize = b\<rparr>"

section \<open>Properties\<close>

subsection \<open>Auxiliary facts\<close>

lemmas consts_defs =
  INTERVAL_DEFAULT_def INTERVAL_MIN_def INTERVAL_MAX_def ITERATION_MAX_def FAILURE_MAX_def
  FAILURE_DEFAULT_def BS_DEF_def BS_MAX_def EXIT_SUCCESS_def EXIT_FAILURE_def

lemmas example_defs = example_env_def example_config_def

lemma take_strcpy_text: "take (length s) (strcpy buf s) = s"
  by (simp add: strcpy_def)

lemma body_events:
  "fst (body c st ws errno) =
     (let n = write_actual_of (blocksize c) (length (sprintf_d_nl (iter st))) in
      Out (Writing_sequence (iter st) n)
        # Write n (take n (strcpy (write_buf st) (sprintf_d_nl (iter st))))
        # (case count_failure (failmax c) (failures st) ws errno of
             (evs_f, Inl status) \<Rightarrow> evs_f
           | (evs_f, Inr fails) \<Rightarrow>
               evs_f @ short_write_notice ws n @ [Out Write_took]
                 @ (if iter st + 1 < iterations c then [Sleep (to_unsigned (interval c))] else [])))"
  by (simp add: body_def Let_def split: prod.splits sum.splits)

lemma count_failure_no_Write:
  "\<forall>ev \<in> set (fst (count_failure fmax fails ws errno)). \<not> is_Write ev"
  by (simp add: count_failure_def)

lemma short_write_notice_no_Write: "\<forall>ev \<in> set (short_write_notice ws n). \<not> is_Write ev"
  by (simp add: short_write_notice_def)



lemma body_Inr:
  assumes "body c st ws errno = (evs, Inr st')"
  shows "iter st' = iter st + 1"
    and "write_buf st' = strcpy (write_buf st) (sprintf_d_nl (iter st))"
    and "failures st' =
           (if ws = - 1 then (if 0 < failmax c then failures st + 1 else failures st) else 0)"
    and "\<not> (ws = - 1 \<and> 0 < failmax c \<and> failures st + 1 = failmax c)"
  using assms
  by (auto simp: body_def Let_def count_failure_def split: if_splits)

lemma body_Inl:
  assumes "body c st ws errno = (evs, Inl status)"
  shows "ws = - 1" and "0 < failmax c" and "failures st + 1 = failmax c"
    and "status = EXIT_FAILURE"
    and "evs = [Out (Writing_sequence (iter st)
                  (write_actual_of (blocksize c) (length (sprintf_d_nl (iter st))))),
                Write (write_actual_of (blocksize c) (length (sprintf_d_nl (iter st))))
                  (take (write_actual_of (blocksize c) (length (sprintf_d_nl (iter st))))
                     (strcpy (write_buf st) (sprintf_d_nl (iter st)))),
                Err (Write_failed errno), Err Reached_max_failcount]"
  using assms
  by (auto simp: body_def Let_def count_failure_def split: if_splits)

lemma body_exits:
  assumes "ws = - 1" and "0 < failmax c" and "failures st + 1 = failmax c"
  shows "\<exists>evs. body c st ws errno = (evs, Inl EXIT_FAILURE)"
  using assms by (simp add: body_def Let_def count_failure_def)

lemma body_one_Write: "length (filter is_Write (fst (body c st ws errno))) = 1"
  by (simp add: body_def Let_def count_failure_def short_write_notice_def
      split: prod.splits sum.splits)

lemma body_no_Malloc: "filter is_Malloc (fst (body c st ws errno)) = []"
  by (simp add: body_def Let_def count_failure_def short_write_notice_def
      split: prod.splits sum.splits)

lemma loop_head_iter: "loop_head e c evs st \<Longrightarrow> 0 \<le> iter st"
proof (induction rule: loop_head.induct)
  case start
  show ?case by (simp add: init_state_def)
next
  case (pass evs st evs' st')
  from pass.hyps(3) have "iter st' = iter st + 1" by (rule body_Inr)
  with pass.IH show ?case by simp
qed

lemma loop_head_failures:
  "loop_head e c evs st \<Longrightarrow> 0 \<le> failures st \<and> (0 < failmax c \<longrightarrow> failures st < failmax c)"
proof (induction rule: loop_head.induct)
  case start
  show ?case by (simp add: init_state_def)
next
  case (pass evs st evs' st')
  note b = body_Inr(3,4) [OF pass.hyps(3)]
  from pass.IH b show ?case by (auto split: if_splits)
qed

lemma loop_head_run:
  "loop_head e c evs st \<Longrightarrow> k \<le> iter st \<Longrightarrow> 0 < failmax c \<Longrightarrow>
     \<forall>j \<in> {iter st - k ..< iter st}. write_ret e j = - 1 \<Longrightarrow> k \<le> failures st"
proof (induction arbitrary: k rule: loop_head.induct)
  case start
  then show ?case by (simp add: init_state_def)
next
  case (pass evs st evs' st')
  note b = body_Inr(1,3) [OF pass.hyps(3)]
  show ?case
  proof (cases "k \<le> 0")
    case True
    with loop_head_failures [OF loop_head.pass [OF pass.hyps]] show ?thesis by simp
  next
    case False
    with pass.prems(3) b(1) have w: "write_ret e (iter st) = - 1" by simp
    from pass.prems(3) b(1) have "\<forall>j \<in> {iter st - (k - 1) ..< iter st}. write_ret e j = - 1"
      by simp
    with pass.IH [of "k - 1"] pass.prems(1,2) b(1) have "k - 1 \<le> failures st" by simp
    with b(2) w pass.prems(2) show ?thesis by simp
  qed
qed

lemma loop_pass:
  assumes "iter st < iterations c"
    and "body c st (write_ret e (iter st)) (write_errno e (iter st)) = (evs', Inr st')"
  shows "loop e c st = (evs' @ fst (loop e c st'), snd (loop e c st'))"
  using assms by (simp add: loop.simps [of e c st] split: prod.splits)

lemma loop_exit:
  assumes "iter st < iterations c"
    and "body c st (write_ret e (iter st)) (write_errno e (iter st)) = (evs', Inl status)"
  shows "loop e c st = (evs', Inl status)"
  using assms by (simp add: loop.simps [of e c st])

lemma loop_head_loop:
  "loop_head e c evs st \<Longrightarrow>
     loop e c (init_state c) = (evs @ fst (loop e c st), snd (loop e c st))"
proof (induction rule: loop_head.induct)
  case start
  show ?case by simp
next
  case (pass evs st evs' st')
  from loop_pass [OF pass.hyps(2,3)] pass.IH show ?case by simp
qed

lemma loop_no_limit:
  "failmax c \<le> 0 \<Longrightarrow>
     \<exists>evs st'. loop e c st = (evs, Inr st')
        \<and> length (filter is_Write evs) = nat (iterations c - iter st)"
proof (induction e c st rule: loop.induct)
  case (1 e c st)
  show ?case
  proof (cases "iter st < iterations c")
    case False
    then show ?thesis by (simp add: loop.simps [of e c st])
  next
    case True
    obtain evs1 r1
      where b: "body c st (write_ret e (iter st)) (write_errno e (iter st)) = (evs1, r1)"
      by (cases "body c st (write_ret e (iter st)) (write_errno e (iter st))")
    show ?thesis
    proof (cases r1)
      case (Inl status)
      with b have "body c st (write_ret e (iter st)) (write_errno e (iter st)) = (evs1, Inl status)"
        by simp
      from body_Inl(2) [OF this] "1.prems" show ?thesis by simp
    next
      case (Inr st1)
      from "1.IH" [OF True b [symmetric] Inr "1.prems"]
      obtain evs2 st2 where l: "loop e c st1 = (evs2, Inr st2)"
        and n: "length (filter is_Write evs2) = nat (iterations c - iter st1)" by blast
      from b Inr
      have "body c st (write_ret e (iter st)) (write_errno e (iter st)) = (evs1, Inr st1)"
        by simp
      from body_Inr(1) [OF this] have i1: "iter st1 = iter st + 1" .
      from body_one_Write [of c st "write_ret e (iter st)" "write_errno e (iter st)"] b
      have w: "length (filter is_Write evs1) = 1" by simp
      from loop_pass [OF True] b Inr l have "loop e c st = (evs1 @ evs2, Inr st2)" by simp
      moreover from n w i1 True
      have "length (filter is_Write (evs1 @ evs2)) = nat (iterations c - iter st)" by simp
      ultimately show ?thesis by blast
    qed
  qed
qed

lemma line_writer_result:
  assumes "file_acquired e c"
  shows "snd (line_writer e c) =
           (case snd (loop e c (init_state c)) of Inl status \<Rightarrow> Inl status | Inr st \<Rightarrow> Inr 0)"
  using assms
  by (auto simp: file_acquired_def line_writer_def split: prod.splits sum.splits)

lemma example_loop_head:
  "loop_head (example_env 3 (\<lambda>i. - 1)) (example_config 5 2 0)
     [Out (Writing_sequence 0 2), Write 2 [CHR ''0'', LF], Err (Write_failed 5),
      Out Write_took, Sleep 5]
     \<lparr>iter = 1, failures = 1, write_buf = strcpy (replicate 1024 CR) [CHR ''0'', LF]\<rparr>"
  using loop_head.pass [OF loop_head.start,
      of "example_config 5 2 0" "example_env 3 (\<lambda>i. - 1)"
         "[Out (Writing_sequence 0 2), Write 2 [CHR ''0'', LF], Err (Write_failed 5),
           Out Write_took, Sleep 5]"
         "\<lparr>iter = 1, failures = 1, write_buf = strcpy (replicate 1024 CR) [CHR ''0'', LF]\<rparr>"]
  by (simp add: example_defs init_state_def body_def Let_def count_failure_def
      short_write_notice_def sprintf_d_nl_def show_int_def dec_digits.simps
      write_actual_of_def write_buf_size_of_def BS_DEF_def strcpy_def to_ssize_t_def
      to_unsigned_def)

lemma parse_opts_append:
  "parse_opts p (pre @ ov # post) v0 =
     (case parse_opts p pre v0 of
        Inl x \<Rightarrow> Inl x
      | Inr v \<Rightarrow> (case switch_opt p ov v of Inl x \<Rightarrow> Inl x | Inr v' \<Rightarrow> parse_opts p post v'))"
  by (induction pre arbitrary: v0) (simp_all split: sum.splits)

lemma main_exit_in_switch:
  assumes "getopt_all args = (pre @ ov # post, rest)"
    and "parse_opts progname pre main_defaults = Inr v"
    and "switch_opt progname ov v = Inl (status, evs)"
  shows "main e (progname # args) = (status, evs)"
  using assms by (simp add: main_def parse_opts_append)

lemma to_int_id: "- (2 ^ 31) \<le> x \<Longrightarrow> x < 2 ^ 31 \<Longrightarrow> to_int x = x"
  by (simp add: to_int_def)

lemma atol_non_numeric:
  assumes "numeral_part s = []"
  shows "atol s = 0"
proof (cases "dropWhile isspace s")
  case Nil
  show ?thesis unfolding atol_def Nil by simp
next
  case (Cons c r)
  from assms
  have "(c = CHR ''-'' \<or> c = CHR ''+'') \<and> takeWhile isdigit r = []
        \<or> c \<noteq> CHR ''-'' \<and> c \<noteq> CHR ''+'' \<and> \<not> isdigit c"
    unfolding numeral_part_def Cons by (simp split: if_splits)
  then show ?thesis
    unfolding atol_def Cons by (auto simp: digits_value_def clamp_long_def)
qed

lemma line_writer_starts:
  "\<exists>evs. fst (line_writer e c) = prologue c @ Open (filename c) # evs"
  by (simp add: line_writer_def split: prod.splits sum.splits)

lemmas atol_eval = atol_def isspace_def isdigit_def digits_value_def clamp_long_def

text \<open>The text of \<open>dec_digits n\<close> consists of decimal digits, and read as a decimal
  numeral (as \<^verbatim>\<open>atol\<close> reads digits) it is \<open>n\<close>.\<close>

lemma digit_char:
  assumes "k < 10"
  shows "(of_char (''0123456789'' ! k) :: int) = 48 + int k" and "isdigit (''0123456789'' ! k)"
proof -
  from assms have "k = 0 \<or> k = 1 \<or> k = 2 \<or> k = 3 \<or> k = 4 \<or> k = 5 \<or> k = 6 \<or> k = 7
    \<or> k = 8 \<or> k = 9" by arith
  then show "(of_char (''0123456789'' ! k) :: int) = 48 + int k"
    and "isdigit (''0123456789'' ! k)"
    by (auto simp: isdigit_def)
qed

lemma digits_value_snoc:
  "digits_value (ds @ [d]) = 10 * digits_value ds + (of_char d - 48)"
  by (simp add: digits_value_def)

lemma dec_digits_value: "digits_value (dec_digits n) = int n"
proof (induction n rule: dec_digits.induct)
  case (1 n)
  show ?case
  proof (cases "n < 10")
    case True
    then show ?thesis
      by (simp add: dec_digits.simps [of n] digits_value_def digit_char(1))
  next
    case False
    have "n mod 10 < 10" by simp
    moreover have "10 * int (n div 10) + int (n mod 10) = int n"
      by presburger
    ultimately show ?thesis using digit_char(1) [of "n mod 10"] "1.IH" [OF False] False
      by (simp add: dec_digits.simps [of n] digits_value_snoc)
  qed
qed

lemma dec_digits_isdigit: "\<forall>ch \<in> set (dec_digits n). isdigit ch"
proof (induction n rule: dec_digits.induct)
  case (1 n)
  show ?case
  proof (cases "n < 10")
    case True
    then show ?thesis by (simp add: dec_digits.simps [of n] digit_char(2))
  next
    case False
    have "n mod 10 < 10" by simp
    from digit_char(2) [OF this] "1.IH" [OF False] False show ?thesis
      by (simp add: dec_digits.simps [of n])
  qed
qed

lemma dec_digits_length_pos: "0 < length (dec_digits n)"
  by (subst dec_digits.simps) simp

lemma dec_digits_length_mono: "m \<le> n \<Longrightarrow> length (dec_digits m) \<le> length (dec_digits n)"
proof (induction n arbitrary: m rule: dec_digits.induct)
  case (1 n)
  show ?case
  proof (cases "n < 10")
    case True
    with "1.prems" show ?thesis
      by (simp add: dec_digits.simps [of n] dec_digits.simps [of m])
  next
    case False
    show ?thesis
    proof (cases "m < 10")
      case True
      with False dec_digits_length_pos [of "n div 10"] show ?thesis
        by (simp add: dec_digits.simps [of n] dec_digits.simps [of m])
    next
      case m: False
      from "1.prems" have "m div 10 \<le> n div 10" by (rule div_le_mono)
      from "1.IH" [OF False this] False m show ?thesis
        by (simp add: dec_digits.simps [of n] dec_digits.simps [of m])
    qed
  qed
qed

lemma dec_digits_length_bound: "n < 10 ^ Suc k \<Longrightarrow> length (dec_digits n) \<le> Suc k"
proof (induction k arbitrary: n)
  case 0
  then show ?case by (simp add: dec_digits.simps [of n])
next
  case (Suc k)
  show ?case
  proof (cases "n < 10")
    case True
    then show ?thesis by (simp add: dec_digits.simps [of n])
  next
    case False
    from Suc.prems have "n div 10 < 10 ^ Suc k" by (simp add: less_mult_imp_div_less)
    from Suc.IH [OF this] False show ?thesis by (simp add: dec_digits.simps [of n])
  qed
qed

lemma sprintf_length_mono:
  "0 \<le> i \<Longrightarrow> i \<le> j \<Longrightarrow> length (sprintf_d_nl i) \<le> length (sprintf_d_nl j)"
  using dec_digits_length_mono [of "nat i" "nat j"]
  by (simp add: sprintf_d_nl_def show_int_def)

lemma sprintf_length_bound:
  assumes "0 \<le> i" and "i < 2 ^ 31"
  shows "length (sprintf_d_nl i) \<le> 11"
proof -
  from assms have "nat i < 2 ^ 31" by (simp add: nat_less_iff)
  then have "nat i < 10 ^ Suc 9" by simp
  from dec_digits_length_bound [OF this] assms(1) show ?thesis
    by (simp add: sprintf_d_nl_def show_int_def)
qed

lemma strcpy_fresh:
  "strcpy (replicate n CR) s = s @ NUL # replicate (n - length s - 1) CR"
  by (simp add: strcpy_def)

lemma strcpy_over:
  assumes "length s \<le> length s'"
  shows "strcpy (s @ NUL # replicate (n - length s - 1) CR) s'
           = s' @ NUL # replicate (n - length s' - 1) CR"
proof -
  from assms have "length s' + 1 - length s = Suc (length s' - length s)" by simp
  moreover from assms
  have "n - length s - 1 - (length s' - length s) = n - length s' - 1" by simp
  ultimately show ?thesis by (simp add: strcpy_def)
qed

lemma length_strcpy: "length (strcpy buf s) = max (length buf) (length s + 1)"
  by (simp add: strcpy_def)

lemma write_buf_size_of_max:
  assumes "blocksize c < 2 ^ 31"
  shows "write_buf_size_of (blocksize c) = nat (max (blocksize c) 1024)"
  using assms by (simp add: write_buf_size_of_def BS_DEF_def to_size_t_def max_def)

lemma loop_head_strcpy:
  "loop_head e c evs st \<Longrightarrow>
     strcpy (write_buf st) (sprintf_d_nl (iter st))
       = sprintf_d_nl (iter st)
           @ NUL # replicate (write_buf_size_of (blocksize c) - length (sprintf_d_nl (iter st)) - 1) CR"
proof (induction rule: loop_head.induct)
  case start
  show ?case by (simp add: init_state_def strcpy_fresh)
next
  case (pass evs st evs' st')
  note b = body_Inr(1,2) [OF pass.hyps(3)]
  from loop_head_iter [OF pass.hyps(1)]
  have "length (sprintf_d_nl (iter st)) \<le> length (sprintf_d_nl (iter st + 1))"
    by (simp add: sprintf_length_mono)
  from strcpy_over [OF this] pass.IH b show ?case by simp
qed

lemma loop_head_buf_length:
  assumes "loop_head e c evs st" and "iterations c < 2 ^ 31" and "blocksize c < 2 ^ 31"
  shows "length (write_buf st) = write_buf_size_of (blocksize c)"
  using assms(1)
proof (induction rule: loop_head.induct)
  case start
  show ?case by (simp add: init_state_def)
next
  case (pass evs st evs' st')
  note b = body_Inr(2) [OF pass.hyps(3)]
  from loop_head_iter [OF pass.hyps(1)] pass.hyps(2) assms(2)
  have "length (sprintf_d_nl (iter st)) \<le> 11" by (simp add: sprintf_length_bound)
  moreover from write_buf_size_of_max [OF assms(3)]
  have "1024 \<le> write_buf_size_of (blocksize c)" by simp
  ultimately show ?case using pass.IH b by (simp add: length_strcpy)
qed

lemma loop_no_Malloc: "filter is_Malloc (fst (loop e c st)) = []"
proof (induction e c st rule: loop.induct)
  case (1 e c st)
  show ?case
  proof (cases "iter st < iterations c")
    case False
    then show ?thesis by (simp add: loop.simps [of e c st])
  next
    case True
    obtain evs1 r1
      where b: "body c st (write_ret e (iter st)) (write_errno e (iter st)) = (evs1, r1)"
      by (cases "body c st (write_ret e (iter st)) (write_errno e (iter st))")
    from body_no_Malloc [of c st "write_ret e (iter st)" "write_errno e (iter st)"] b
    have m: "filter is_Malloc evs1 = []" by simp
    show ?thesis
    proof (cases r1)
      case (Inl status)
      with True b m show ?thesis by (simp add: loop.simps [of e c st])
    next
      case (Inr st1)
      with b
      have b': "body c st (write_ret e (iter st)) (write_errno e (iter st)) = (evs1, Inr st1)"
        by simp
      from "1.IH" [OF True b [symmetric] Inr] loop_pass [OF True b'] m show ?thesis
        by simp
    qed
  qed
qed

lemma line_writer_Malloc:
  "\<exists>evs'. fst (line_writer e c) = prologue c @ evs' \<and> filter is_Malloc evs' = []"
proof (cases "loop e c (init_state c)")
  case (Pair evs r)
  with loop_no_Malloc [of e c "init_state c"] have "filter is_Malloc evs = []" by simp
  with Pair show ?thesis
    by (cases r) (simp_all add: line_writer_def)
qed

lemma prologue_Malloc:
  "filter is_Malloc (prologue c) = [Malloc (write_buf_size_of (blocksize c))]"
  by (simp add: prologue_def)

lemma to_unsigned_id: "0 \<le> x \<Longrightarrow> x < 2 ^ 32 \<Longrightarrow> to_unsigned x = x"
  by (simp add: to_unsigned_def)





lemma digit_char_nonzero:
  assumes "0 < k" and "k < 10"
  shows "''0123456789'' ! k \<noteq> CHR ''0''"
proof -
  from assms have "k = 1 \<or> k = 2 \<or> k = 3 \<or> k = 4 \<or> k = 5 \<or> k = 6 \<or> k = 7
    \<or> k = 8 \<or> k = 9" by arith
  then show ?thesis by auto
qed

lemma dec_digits_zero: "dec_digits 0 = ''0''"
  by (simp add: dec_digits.simps [of 0])

lemma dec_digits_hd: "0 < n \<Longrightarrow> hd (dec_digits n) \<noteq> CHR ''0''"
proof (induction n rule: dec_digits.induct)
  case (1 n)
  show ?case
  proof (cases "n < 10")
    case True
    from digit_char_nonzero [OF "1.prems" True] True show ?thesis
      by (simp only: dec_digits.simps [of n] if_True list.sel simp_thms)
  next
    case False
    then have "0 < n div 10" by simp
    from "1.IH" [OF False this] False dec_digits_length_pos [of "n div 10"] show ?thesis
      by (simp add: dec_digits.simps [of n])
  qed
qed

lemma dec_digits_decimal:
  "dec_digits n \<noteq> []
   \<and> (\<forall>ch \<in> set (dec_digits n). ch \<in> set ''0123456789'')
   \<and> (hd (dec_digits n) = CHR ''0'' \<longrightarrow> dec_digits n = ''0'')
   \<and> foldl (\<lambda>a d. 10 * a + (of_char d - 48)) 0 (dec_digits n) = int n"
proof (intro conjI)
  from dec_digits_length_pos [of n] show "dec_digits n \<noteq> []" by simp
  from dec_digits_isdigit [of n] show "\<forall>ch \<in> set (dec_digits n). ch \<in> set ''0123456789''"
    by (simp only: isdigit_def)
  from dec_digits_hd [of n] dec_digits_zero
  show "hd (dec_digits n) = CHR ''0'' \<longrightarrow> dec_digits n = ''0''"
    by (cases "n = 0") auto
  from dec_digits_value [of n]
  show "foldl (\<lambda>a d. 10 * a + (of_char d - 48)) 0 (dec_digits n) = int n"
    by (simp only: digits_value_def)
qed

lemma parse_opts_Inl:
  "parse_opts p ovs v0 = Inl x \<Longrightarrow>
     \<exists>pre1 ov pre2 v1. ovs = pre1 @ ov # pre2 \<and> parse_opts p pre1 v0 = Inr v1
        \<and> switch_opt p ov v1 = Inl x"
proof (induction ovs arbitrary: v0)
  case Nil
  then show ?case by simp
next
  case (Cons ov ovs)
  show ?case
  proof (cases "switch_opt p ov v0")
    case (Inl y)
    with Cons.prems have "x = y" by simp
    with Inl have "ov # ovs = [] @ ov # ovs \<and> parse_opts p [] v0 = Inr v0
        \<and> switch_opt p ov v0 = Inl x" by simp
    then show ?thesis by blast
  next
    case (Inr v')
    with Cons.prems have "parse_opts p ovs v' = Inl x" by simp
    from Cons.IH [OF this] obtain pre1 ov' pre2 v1
      where "ovs = pre1 @ ov' # pre2" and "parse_opts p pre1 v' = Inr v1"
        and "switch_opt p ov' v1 = Inl x" by blast
    with Inr have "ov # ovs = (ov # pre1) @ ov' # pre2 \<and> parse_opts p (ov # pre1) v0 = Inr v1
        \<and> switch_opt p ov' v1 = Inl x" by simp
    then show ?thesis by blast
  qed
qed

lemma switch_opt_Inl:
  assumes "switch_opt p ov v = Inl x" and "fst ov \<noteq> CHR ''h''"
  shows "\<exists>m. x = (EXIT_FAILURE, [Err m])"
  using assms
  by (cases ov) (auto simp: switch_opt_def Let_def split: if_splits)

subsection \<open>The write request\<close>

text \<open>
  C4. In every iteration the pass through the loop body prints the sequence line and then
  calls \<^verbatim>\<open>write\<close> exactly once. With block size 0 the bytes passed are the decimal
  rendering of the iteration index followed by a newline, and the count requested is the
  length of that text: the bytes before the newline are decimal digits, at least one, with no
  leading zero (the index 0 is the one digit 0), and read as a decimal numeral they are the
  iteration index. With a block size above 0 the count requested is the block size.
  (\<open>blocksize\<close> is a C \<^verbatim>\<open>int\<close>, hence below \<open>2 ^ 31\<close>; the iteration index of the
  loop is never negative, see \<open>loop_head_iter\<close>.)
\<close>

theorem write_request:
  assumes "blocksize c < 2 ^ 31"
  shows "\<exists>n payload rest.
           fst (body c st ws errno) = Out (Writing_sequence (iter st) n) # Write n payload # rest
         \<and> (\<forall>ev \<in> set rest. \<not> is_Write ev)
         \<and> (blocksize c = 0 \<longrightarrow>
               payload = show_int (iter st) @ [LF] \<and> n = length (show_int (iter st) @ [LF]))
         \<and> (blocksize c = 0 \<and> 0 \<le> iter st \<longrightarrow>
               (\<exists>ds. payload = ds @ [CHR 0x0A] \<and> n = length ds + 1 \<and> ds \<noteq> []
                  \<and> (\<forall>ch \<in> set ds. ch \<in> set ''0123456789'')
                  \<and> (hd ds = CHR ''0'' \<longrightarrow> ds = ''0'')
                  \<and> foldl (\<lambda>a d. 10 * a + (of_char d - 48)) 0 ds = iter st))
         \<and> (0 < blocksize c \<longrightarrow> int n = blocksize c)"
proof -
  let ?txt = "sprintf_d_nl (iter st)"
  let ?n = "write_actual_of (blocksize c) (length ?txt)"
  let ?payload = "take ?n (strcpy (write_buf st) ?txt)"
  define rest where "rest =
     (case count_failure (failmax c) (failures st) ws errno of
        (evs_f, Inl status) \<Rightarrow> evs_f
      | (evs_f, Inr fails) \<Rightarrow>
          evs_f @ short_write_notice ws ?n @ [Out Write_took]
            @ (if iter st + 1 < iterations c then [Sleep (to_unsigned (interval c))] else []))"
  have ev: "fst (body c st ws errno) =
              Out (Writing_sequence (iter st) ?n) # Write ?n ?payload # rest"
    by (simp add: body_events rest_def Let_def)
  have rest: "\<forall>ev \<in> set rest. \<not> is_Write ev"
  proof (cases "count_failure (failmax c) (failures st) ws errno")
    case (Pair evs_f r)
    with count_failure_no_Write [of "failmax c" "failures st" ws errno]
    have "\<forall>ev \<in> set evs_f. \<not> is_Write ev" by simp
    with Pair short_write_notice_no_Write [of ws ?n] show ?thesis
      by (cases r) (auto simp: rest_def)
  qed
  have z: "blocksize c = 0 \<longrightarrow>
             ?payload = show_int (iter st) @ [LF] \<and> ?n = length (show_int (iter st) @ [LF])"
    using take_strcpy_text [of ?txt "write_buf st"]
    by (simp add: write_actual_of_def sprintf_d_nl_def)
  have d: "blocksize c = 0 \<and> 0 \<le> iter st \<longrightarrow>
               (\<exists>ds. ?payload = ds @ [CHR 0x0A] \<and> ?n = length ds + 1 \<and> ds \<noteq> []
                  \<and> (\<forall>ch \<in> set ds. ch \<in> set ''0123456789'')
                  \<and> (hd ds = CHR ''0'' \<longrightarrow> ds = ''0'')
                  \<and> foldl (\<lambda>a d. 10 * a + (of_char d - 48)) 0 ds = iter st)"
  proof
    assume a: "blocksize c = 0 \<and> 0 \<le> iter st"
    let ?ds = "dec_digits (nat (iter st))"
    from a have s: "show_int (iter st) = ?ds" by (simp add: show_int_def)
    from a z have "?payload = show_int (iter st) @ [LF]"
      and "?n = length (show_int (iter st) @ [LF])" by blast+
    then have "?payload = ?ds @ [CHR 0x0A]" and "?n = length ?ds + 1"
      by (simp_all only: s LF_def length_append list.size One_nat_def add_Suc_right add_0_right)
    moreover from dec_digits_decimal [of "nat (iter st)"] a
    have "?ds \<noteq> []" and "\<forall>ch \<in> set ?ds. ch \<in> set ''0123456789''"
      and "hd ?ds = CHR ''0'' \<longrightarrow> ?ds = ''0''"
      and "foldl (\<lambda>a d. 10 * a + (of_char d - 48)) 0 ?ds = iter st"
      by simp_all
    ultimately show "\<exists>ds. ?payload = ds @ [CHR 0x0A] \<and> ?n = length ds + 1 \<and> ds \<noteq> []
                  \<and> (\<forall>ch \<in> set ds. ch \<in> set ''0123456789'')
                  \<and> (hd ds = CHR ''0'' \<longrightarrow> ds = ''0'')
                  \<and> foldl (\<lambda>a d. 10 * a + (of_char d - 48)) 0 ds = iter st"
      by blast
  qed
  have p: "0 < blocksize c \<longrightarrow> int ?n = blocksize c"
    using assms by (simp add: write_actual_of_def to_size_t_def)
  from ev rest z d p show ?thesis by blast
qed

theorem write_request_witness:
  "blocksize (example_config 666 5 0) < 2 ^ 31
   \<and> blocksize (example_config 666 5 0) = 0
   \<and> (\<exists>rest. fst (body (example_config 666 5 0)
                  \<lparr>iter = 665, failures = 0, write_buf = replicate 1024 CR\<rparr> 4 0)
         = Out (Writing_sequence 665 4) # Write 4 [CHR ''6'', CHR ''6'', CHR ''5'', LF] # rest)
   \<and> (\<exists>rest. fst (body (example_config 3 5 0) (init_state (example_config 3 5 0)) 2 0)
         = Out (Writing_sequence 0 2) # Write 2 [CHR ''0'', LF] # rest)
   \<and> (\<exists>n payload rest.
         fst (body (example_config 3 5 4096) (init_state (example_config 3 5 4096)) 2 0)
         = Out (Writing_sequence 0 n) # Write n payload # rest \<and> int n = 4096)"
  using write_request [of "example_config 666 5 0"
      "\<lparr>iter = 665, failures = 0, write_buf = replicate 1024 CR\<rparr>" 4 0]
    write_request [of "example_config 3 5 0" "init_state (example_config 3 5 0)" 2 0]
    write_request [of "example_config 3 5 4096" "init_state (example_config 3 5 4096)" 2 0]
  by (auto simp: example_defs init_state_def show_int_def dec_digits.simps)

subsection \<open>Short writes\<close>

text \<open>
  C3. When \<^verbatim>\<open>write\<close> does not fail (its result is not -1) but returns another count
  than the one requested, the pass continues (no exit), prints the notice on standard output,
  prints nothing on the error stream, and leaves the failure counter at 0; the state it
  leaves is the state that every write that does not fail leaves, a full write included.
\<close>

theorem short_write_resets:
  assumes "ws \<noteq> - 1"
    and "ws \<noteq> to_ssize_t (write_actual_of (blocksize c) (length (sprintf_d_nl (iter st))))"
  shows "\<exists>evs st'. body c st ws errno = (evs, Inr st')
           \<and> failures st' = 0
           \<and> Out (Short_write (to_int ws)
                  (to_int (int (write_actual_of (blocksize c) (length (sprintf_d_nl (iter st)))))))
               \<in> set evs
           \<and> (\<forall>ev \<in> set evs. \<not> is_Err ev)
           \<and> (\<forall>ws' errno'. ws' \<noteq> - 1 \<longrightarrow> snd (body c st ws' errno') = Inr st')"
  using assms
  by (simp add: body_def Let_def count_failure_def short_write_notice_def)

theorem short_write_resets_witness:
  "(1::int) \<noteq> - 1
   \<and> 1 \<noteq> to_ssize_t (write_actual_of (blocksize (example_config 3 5 0))
                        (length (sprintf_d_nl (iter (init_state (example_config 3 5 0))))))
   \<and> (\<exists>evs st'.
         body (example_config 3 5 0) (init_state (example_config 3 5 0)) 1 0 = (evs, Inr st')
         \<and> failures st' = 0 \<and> Out (Short_write 1 2) \<in> set evs)"
  using short_write_resets [of 1 "example_config 3 5 0" "init_state (example_config 3 5 0)" 0]
  by (auto simp: example_defs init_state_def show_int_def dec_digits.simps sprintf_d_nl_def
      write_actual_of_def to_ssize_t_def to_int_def)

subsection \<open>Sleeping\<close>



subsection \<open>The limit on consecutive failures\<close>

text \<open>
  C2. Suppose the loop test is reached in state \<open>st\<close> with another iteration to run, the limit
  \<open>failmax\<close> is above 0, and the \<^verbatim>\<open>write\<close> calls of the \<open>failmax\<close> iterations up to
  and including this one all fail. Then this pass ends the loop with
  \<^verbatim>\<open>exit(EXIT_FAILURE)\<close>: after the failed \<^verbatim>\<open>write\<close> only the two messages on
  the error stream follow, no further iteration is attempted, and \<open>line_writer\<close> ends the
  process with the failure status. With \<open>failmax = 0\<close> the loop never exits, whatever the
  \<^verbatim>\<open>write\<close> calls return: it calls \<^verbatim>\<open>write\<close> once in each of its
  \<open>iterations\<close> iterations and \<open>line_writer\<close> returns 0.
\<close>

theorem failure_limit:
  "(loop_head e c evs st \<and> iter st < iterations c \<and> 0 < failmax c
      \<and> failed_run e (iter st) (failmax c) \<longrightarrow>
      (\<exists>n payload.
         loop e c (init_state c) =
           (evs @ [Out (Writing_sequence (iter st) n), Write n payload,
                   Err (Write_failed (write_errno e (iter st))), Err Reached_max_failcount],
            Inl EXIT_FAILURE))
      \<and> (file_acquired e c \<longrightarrow> snd (line_writer e c) = Inl EXIT_FAILURE))
   \<and> (failmax c = 0 \<longrightarrow>
      (\<exists>evs_all st_end.
         loop e c (init_state c) = (evs_all, Inr st_end)
         \<and> length (filter is_Write evs_all) = nat (iterations c))
      \<and> (file_acquired e c \<longrightarrow> snd (line_writer e c) = Inr 0))"
proof (intro conjI impI)
  assume a: "loop_head e c evs st \<and> iter st < iterations c \<and> 0 < failmax c
      \<and> failed_run e (iter st) (failmax c)"
  then have h: "loop_head e c evs st" and i: "iter st < iterations c" and f: "0 < failmax c"
    and r: "failmax c \<le> iter st + 1"
    and w: "\<forall>j \<in> {iter st - failmax c + 1 .. iter st}. write_ret e j = - 1"
    by (simp_all add: failed_run_def)
  from w f have now: "write_ret e (iter st) = - 1" by simp
  from w have "\<forall>j \<in> {iter st - (failmax c - 1) ..< iter st}. write_ret e j = - 1" by simp
  with loop_head_run [OF h, of "failmax c - 1"] r f have "failmax c - 1 \<le> failures st" by simp
  with loop_head_failures [OF h] f have eq: "failures st + 1 = failmax c" by simp
  from body_exits [OF now f eq] obtain evs'
    where b: "body c st (write_ret e (iter st)) (write_errno e (iter st)) = (evs', Inl EXIT_FAILURE)"
    by blast
  from loop_exit [OF i b] loop_head_loop [OF h]
  have l: "loop e c (init_state c) = (evs @ evs', Inl EXIT_FAILURE)" by simp
  with body_Inl(5) [OF b]
  show "\<exists>n payload.
         loop e c (init_state c) =
           (evs @ [Out (Writing_sequence (iter st) n), Write n payload,
                   Err (Write_failed (write_errno e (iter st))), Err Reached_max_failcount],
            Inl EXIT_FAILURE)"
    by blast
  assume "file_acquired e c"
  from line_writer_result [OF this] l show "snd (line_writer e c) = Inl EXIT_FAILURE" by simp
next
  assume z: "failmax c = 0"
  with loop_no_limit [of c e "init_state c"]
  obtain evs_all st_end where l: "loop e c (init_state c) = (evs_all, Inr st_end)"
    and n: "length (filter is_Write evs_all) = nat (iterations c)"
    by (auto simp: init_state_def)
  then show "\<exists>evs_all st_end.
         loop e c (init_state c) = (evs_all, Inr st_end)
         \<and> length (filter is_Write evs_all) = nat (iterations c)"
    by blast
  assume "file_acquired e c"
  from line_writer_result [OF this] l show "snd (line_writer e c) = Inr 0" by simp
qed

theorem failure_limit_witness:
  "loop_head (example_env 3 (\<lambda>i. - 1)) (example_config 5 2 0)
     [Out (Writing_sequence 0 2), Write 2 [CHR ''0'', LF], Err (Write_failed 5),
      Out Write_took, Sleep 5]
     \<lparr>iter = 1, failures = 1, write_buf = strcpy (replicate 1024 CR) [CHR ''0'', LF]\<rparr>
   \<and> failed_run (example_env 3 (\<lambda>i. - 1)) 1 2
   \<and> file_acquired (example_env 3 (\<lambda>i. - 1)) (example_config 5 2 0)
   \<and> snd (line_writer (example_env 3 (\<lambda>i. - 1)) (example_config 5 2 0)) = Inl EXIT_FAILURE
   \<and> length (filter is_Write
        (fst (loop (example_env 3 (\<lambda>i. - 1)) (example_config 5 2 0)
               (init_state (example_config 5 2 0))))) = 2
   \<and> failmax (example_config 5 0 0) = 0
   \<and> snd (line_writer (example_env 3 (\<lambda>i. - 1)) (example_config 5 0 0)) = Inr 0
   \<and> length (filter is_Write
        (fst (loop (example_env 3 (\<lambda>i. - 1)) (example_config 5 0 0)
               (init_state (example_config 5 0 0))))) = 5"
proof -
  let ?e = "example_env 3 (\<lambda>i. - 1)"
  have fr: "failed_run ?e 1 2" by (simp add: failed_run_def example_defs)
  have fa: "file_acquired ?e (example_config 5 2 0)" "file_acquired ?e (example_config 5 0 0)"
    by (simp_all add: file_acquired_def example_defs)
  from failure_limit [of ?e "example_config 5 2 0"
      "[Out (Writing_sequence 0 2), Write 2 [CHR ''0'', LF], Err (Write_failed 5),
        Out Write_took, Sleep 5]"
      "\<lparr>iter = 1, failures = 1, write_buf = strcpy (replicate 1024 CR) [CHR ''0'', LF]\<rparr>"]
    example_loop_head fr fa(1)
  have a: "snd (line_writer ?e (example_config 5 2 0)) = Inl EXIT_FAILURE
         \<and> length (filter is_Write
              (fst (loop ?e (example_config 5 2 0) (init_state (example_config 5 2 0))))) = 2"
    by (auto simp: example_config_def)
  from failure_limit [of ?e "example_config 5 0 0"] fa(2)
  have b: "snd (line_writer ?e (example_config 5 0 0)) = Inr 0
         \<and> length (filter is_Write
              (fst (loop ?e (example_config 5 0 0) (init_state (example_config 5 0 0))))) = 5"
    by (auto simp: example_config_def)
  from example_loop_head fr fa a b show ?thesis by (simp add: example_config_def)
qed

subsection \<open>The failure counter\<close>

text \<open>
  C10. Whenever the loop test is reached and the limit \<open>failmax\<close> is above 0, the failure
  counter is at least 0 and strictly below \<open>failmax\<close>. The pass that follows exits, with the
  failure status, exactly when its \<^verbatim>\<open>write\<close> fails and the incremented counter
  equals \<open>failmax\<close>; otherwise it leaves a counter that is again below \<open>failmax\<close> and at
  most one above the old one. So the counter never exceeds \<open>failmax\<close>.
\<close>

theorem failure_counter_bounded:
  assumes "loop_head e c evs st" and "0 < failmax c"
  shows "0 \<le> failures st \<and> failures st < failmax c
     \<and> (case snd (body c st (write_ret e (iter st)) (write_errno e (iter st))) of
           Inl status \<Rightarrow>
             status = EXIT_FAILURE \<and> write_ret e (iter st) = - 1
             \<and> failures st + 1 = failmax c
         | Inr st' \<Rightarrow>
             failures st' \<le> failures st + 1 \<and> 0 \<le> failures st' \<and> failures st' < failmax c
             \<and> \<not> (write_ret e (iter st) = - 1 \<and> failures st + 1 = failmax c))"
proof -
  from loop_head_failures [OF assms(1)] assms(2)
  have inv: "0 \<le> failures st" "failures st < failmax c" by simp_all
  obtain evs1 r1
    where b: "body c st (write_ret e (iter st)) (write_errno e (iter st)) = (evs1, r1)"
    by (cases "body c st (write_ret e (iter st)) (write_errno e (iter st))")
  have "case r1 of
           Inl status \<Rightarrow>
             status = EXIT_FAILURE \<and> write_ret e (iter st) = - 1
             \<and> failures st + 1 = failmax c
         | Inr st' \<Rightarrow>
             failures st' \<le> failures st + 1 \<and> 0 \<le> failures st' \<and> failures st' < failmax c
             \<and> \<not> (write_ret e (iter st) = - 1 \<and> failures st + 1 = failmax c)"
  proof (cases r1)
    case (Inl status)
    with b have "body c st (write_ret e (iter st)) (write_errno e (iter st)) = (evs1, Inl status)"
      by simp
    from body_Inl(1,3,4) [OF this] Inl show ?thesis by simp
  next
    case (Inr st1)
    with b have "body c st (write_ret e (iter st)) (write_errno e (iter st)) = (evs1, Inr st1)"
      by simp
    from body_Inr(3,4) [OF this] Inr inv assms(2) show ?thesis
      by (auto split: if_splits)
  qed
  with inv b show ?thesis by simp
qed

theorem failure_counter_bounded_witness:
  "loop_head (example_env 3 (\<lambda>i. - 1)) (example_config 5 2 0)
     [Out (Writing_sequence 0 2), Write 2 [CHR ''0'', LF], Err (Write_failed 5),
      Out Write_took, Sleep 5]
     \<lparr>iter = 1, failures = 1, write_buf = strcpy (replicate 1024 CR) [CHR ''0'', LF]\<rparr>
   \<and> 0 < failmax (example_config 5 2 0)
   \<and> failures \<lparr>iter = 1, failures = 1,
               write_buf = strcpy (replicate 1024 CR) [CHR ''0'', LF]\<rparr>
       < failmax (example_config 5 2 0)
   \<and> snd (body (example_config 5 2 0)
        \<lparr>iter = 1, failures = 1, write_buf = strcpy (replicate 1024 CR) [CHR ''0'', LF]\<rparr>
        (- 1) 5) = Inl EXIT_FAILURE"
  using failure_counter_bounded [OF example_loop_head] example_loop_head
  by (simp add: example_defs body_def Let_def count_failure_def)

subsection \<open>The exit status after a failed \<^verbatim>\<open>open\<close> or \<^verbatim>\<open>flock\<close>\<close>

text \<open>
  C1. When \<^verbatim>\<open>open\<close> fails, \<open>line_writer\<close> prints its message and returns 1, and so
  it does when \<^verbatim>\<open>flock\<close> fails; \<open>main\<close> does not look at the value returned and
  returns 0. Evaluated on the command lines \<^verbatim>\<open>timed-writer /nonexistent/out.txt\<close>, with
  \<^verbatim>\<open>open\<close> returning -1, and \<^verbatim>\<open>timed-writer -l out.txt\<close>, with
  \<^verbatim>\<open>flock\<close> returning -1: the exit status of the process is 0.
\<close>

theorem open_or_lock_failure_exit_status:
  "snd (line_writer (example_env (- 1) (\<lambda>i. 2)) (config_of ''/nonexistent/out.txt'' main_defaults))
     = Inr 1
   \<and> main (example_env (- 1) (\<lambda>i. 2)) [''timed-writer'', ''/nonexistent/out.txt'']
     = (0, prologue (config_of ''/nonexistent/out.txt'' main_defaults)
           @ [Open ''/nonexistent/out.txt'', Err (Unable_to_open ''/nonexistent/out.txt'' 2)])
   \<and> main ((example_env 3 (\<lambda>i. 2))\<lparr>flock_ret := - 1, flock_errno := 9\<rparr>)
        [''timed-writer'', ''-l'', ''out.txt'']
     = (0, prologue (config_of ''out.txt'' (main_defaults\<lparr>v_excl_lock := 1\<rparr>))
           @ [Open ''out.txt'', Flock, Err (Unable_to_lock ''out.txt'' 9)])"
  by (simp add: main_def getopt_all_def switch_opt_def line_writer_def config_of_def
      main_defaults_def example_defs)

text \<open>
  The same for every environment and command line: whenever \<open>line_writer\<close> returns,
  whatever it returns, the exit status is 0; and it returns 1 when \<^verbatim>\<open>open\<close> or
  \<^verbatim>\<open>flock\<close> fails.
\<close>

lemma line_writer_open_fails: "open_ret e = - 1 \<Longrightarrow> snd (line_writer e c) = Inr 1"
  by (simp add: line_writer_def)

lemma line_writer_flock_fails:
  "open_ret e \<noteq> - 1 \<Longrightarrow> excl_lock c \<noteq> 0 \<Longrightarrow> flock_ret e = - 1 \<Longrightarrow>
     snd (line_writer e c) = Inr 1"
  by (simp add: line_writer_def)

lemma main_ignores_return:
  assumes "getopt_all args = (ovs, [f])"
    and "parse_opts progname ovs main_defaults = Inr v"
    and "snd (line_writer e (config_of f v)) = Inr r"
  shows "fst (main e (progname # args)) = 0"
  using assms by (auto simp: main_def split: prod.splits sum.splits)

subsection \<open>Values of the numeric options\<close>

text \<open>
  C5 as the claim states it fails: \<^verbatim>\<open>atol\<close> reads text without digits as 0, and 0
  is within the bounds of \<^verbatim>\<open>-f\<close> (and of \<^verbatim>\<open>-b\<close>). On the command line
  \<^verbatim>\<open>prog -f abc -c 1 out.txt\<close> the file is opened and the process ends with the
  success status.
\<close>

theorem non_numeric_failmax_accepted:
  "numeral_part ''abc'' = []
   \<and> fst (main (example_env 3 (\<lambda>i. 2)) [''prog'', ''-f'', ''abc'', ''-c'', ''1'', ''out.txt''])
       = EXIT_SUCCESS
   \<and> Open ''out.txt''
       \<in> set (snd (main (example_env 3 (\<lambda>i. 2))
                     [''prog'', ''-f'', ''abc'', ''-c'', ''1'', ''out.txt'']))"
  by (simp add: numeral_part_def main_def getopt_all_def switch_opt_def atol_eval consts_defs
      main_defaults_def config_of_def to_int_def line_writer_def prologue_def example_defs
      loop.simps init_state_def body_def count_failure_def Let_def short_write_notice_def)

text \<open>
  C5, amended. Let option parsing reach an option \<^verbatim>\<open>-s\<close>, \<^verbatim>\<open>-c\<close>,
  \<^verbatim>\<open>-f\<close> or \<^verbatim>\<open>-b\<close>: every option before it was accepted (and none was
  \<^verbatim>\<open>-h\<close>). The option's argument is converted by \<^verbatim>\<open>atol\<close>. If the converted
  value is 0 or outside [1, 3600] for \<^verbatim>\<open>-s\<close>, outside (0, 666] for \<^verbatim>\<open>-c\<close>,
  outside [0, 100] for \<^verbatim>\<open>-f\<close>, or outside [0, 33554432] (and within the range of
  \<^verbatim>\<open>int\<close>) for \<^verbatim>\<open>-b\<close>, the process prints the option's message, with the
  argument, on the error stream and exits with the failure status; nothing else happens, in
  particular no file is opened. An argument without digits converts to 0: that is fatal for
  \<^verbatim>\<open>-s\<close> and \<^verbatim>\<open>-c\<close> by the rule above, and is accepted as the value 0 by
  \<^verbatim>\<open>-f\<close> and \<^verbatim>\<open>-b\<close>.
\<close>

theorem invalid_value_is_fatal:
  assumes "getopt_all args = (pre @ (opt, optarg) # post, rest)"
    and "parse_opts progname pre main_defaults = Inr v"
  shows "(opt = CHR ''s'' \<and> (atol optarg = 0 \<or> atol optarg < 1 \<or> 3600 < atol optarg) \<longrightarrow>
            main e (progname # args) = (EXIT_FAILURE, [Err (Invalid_sleep_time optarg)]))
       \<and> (opt = CHR ''c'' \<and> (atol optarg \<le> 0 \<or> 666 < atol optarg) \<longrightarrow>
            main e (progname # args) = (EXIT_FAILURE, [Err (Invalid_max_iterations optarg)]))
       \<and> (opt = CHR ''f'' \<and> (atol optarg < 0 \<or> 100 < atol optarg) \<longrightarrow>
            main e (progname # args) = (EXIT_FAILURE, [Err (Invalid_max_failures optarg)]))
       \<and> (opt = CHR ''b'' \<and> (atol optarg < 0 \<or> 33554432 < atol optarg)
            \<and> - (2 ^ 31) \<le> atol optarg \<and> atol optarg < 2 ^ 31 \<longrightarrow>
            main e (progname # args) = (EXIT_FAILURE, [Err (Invalid_block_size optarg)]))
       \<and> (numeral_part optarg = [] \<longrightarrow>
            atol optarg = 0
            \<and> switch_opt progname (CHR ''f'', optarg) v = Inr (v\<lparr>v_failmax := 0\<rparr>)
            \<and> switch_opt progname (CHR ''b'', optarg) v = Inr (v\<lparr>v_blocksize := 0\<rparr>))"
proof (intro conjI impI)
  assume "opt = CHR ''s'' \<and> (atol optarg = 0 \<or> atol optarg < 1 \<or> 3600 < atol optarg)"
  then have "switch_opt progname (opt, optarg) v
               = Inl (EXIT_FAILURE, [Err (Invalid_sleep_time optarg)])"
    by (auto simp: switch_opt_def Let_def INTERVAL_MAX_def INTERVAL_MIN_def)
  from main_exit_in_switch [OF assms this]
  show "main e (progname # args) = (EXIT_FAILURE, [Err (Invalid_sleep_time optarg)])" .
next
  assume "opt = CHR ''c'' \<and> (atol optarg \<le> 0 \<or> 666 < atol optarg)"
  then have "switch_opt progname (opt, optarg) v
               = Inl (EXIT_FAILURE, [Err (Invalid_max_iterations optarg)])"
    by (auto simp: switch_opt_def Let_def ITERATION_MAX_def)
  from main_exit_in_switch [OF assms this]
  show "main e (progname # args) = (EXIT_FAILURE, [Err (Invalid_max_iterations optarg)])" .
next
  assume "opt = CHR ''f'' \<and> (atol optarg < 0 \<or> 100 < atol optarg)"
  then have "switch_opt progname (opt, optarg) v
               = Inl (EXIT_FAILURE, [Err (Invalid_max_failures optarg)])"
    by (auto simp: switch_opt_def Let_def FAILURE_MAX_def)
  from main_exit_in_switch [OF assms this]
  show "main e (progname # args) = (EXIT_FAILURE, [Err (Invalid_max_failures optarg)])" .
next
  assume a: "opt = CHR ''b'' \<and> (atol optarg < 0 \<or> 33554432 < atol optarg)
            \<and> - (2 ^ 31) \<le> atol optarg \<and> atol optarg < 2 ^ 31"
  then have "to_int (atol optarg) = atol optarg" by (simp add: to_int_id)
  with a have "switch_opt progname (opt, optarg) v
               = Inl (EXIT_FAILURE, [Err (Invalid_block_size optarg)])"
    by (auto simp: switch_opt_def Let_def BS_MAX_def)
  from main_exit_in_switch [OF assms this]
  show "main e (progname # args) = (EXIT_FAILURE, [Err (Invalid_block_size optarg)])" .
next
  assume n: "numeral_part optarg = []"
  then show z: "atol optarg = 0" by (rule atol_non_numeric)
  then show "switch_opt progname (CHR ''f'', optarg) v = Inr (v\<lparr>v_failmax := 0\<rparr>)"
    by (simp add: switch_opt_def FAILURE_MAX_def)
  from z show "switch_opt progname (CHR ''b'', optarg) v = Inr (v\<lparr>v_blocksize := 0\<rparr>)"
    by (simp add: switch_opt_def BS_MAX_def to_int_def)
qed

theorem invalid_value_is_fatal_witness:
  "main (example_env 3 (\<lambda>i. 2)) [''prog'', ''-s'', ''3601'', ''out.txt'']
     = (EXIT_FAILURE, [Err (Invalid_sleep_time ''3601'')])
   \<and> main (example_env 3 (\<lambda>i. 2)) [''prog'', ''-s'', ''abc'', ''out.txt'']
     = (EXIT_FAILURE, [Err (Invalid_sleep_time ''abc'')])
   \<and> main (example_env 3 (\<lambda>i. 2)) [''prog'', ''-c'', ''0'', ''out.txt'']
     = (EXIT_FAILURE, [Err (Invalid_max_iterations ''0'')])
   \<and> main (example_env 3 (\<lambda>i. 2)) [''prog'', ''-f'', ''101'', ''out.txt'']
     = (EXIT_FAILURE, [Err (Invalid_max_failures ''101'')])
   \<and> main (example_env 3 (\<lambda>i. 2)) [''prog'', ''-b'', ''33554433'', ''out.txt'']
     = (EXIT_FAILURE, [Err (Invalid_block_size ''33554433'')])
   \<and> numeral_part ''abc'' = []
   \<and> switch_opt ''prog'' (CHR ''f'', ''abc'') main_defaults = Inr (main_defaults\<lparr>v_failmax := 0\<rparr>)"
proof -
  have g: "getopt_all [''-s'', ''3601'', ''out.txt''] = ([] @ (CHR ''s'', ''3601'') # [], [''out.txt''])"
    "getopt_all [''-s'', ''abc'', ''out.txt''] = ([] @ (CHR ''s'', ''abc'') # [], [''out.txt''])"
    "getopt_all [''-c'', ''0'', ''out.txt''] = ([] @ (CHR ''c'', ''0'') # [], [''out.txt''])"
    "getopt_all [''-f'', ''101'', ''out.txt''] = ([] @ (CHR ''f'', ''101'') # [], [''out.txt''])"
    "getopt_all [''-b'', ''33554433'', ''out.txt'']
       = ([] @ (CHR ''b'', ''33554433'') # [], [''out.txt''])"
    by (simp_all add: getopt_all_def)
  have p: "parse_opts ''prog'' [] main_defaults = Inr main_defaults" by simp
  have a: "atol ''3601'' = 3601" "atol ''abc'' = 0" "atol ''0'' = 0" "atol ''101'' = 101"
    "atol ''33554433'' = 33554433"
    by (simp_all add: atol_eval)
  have n: "numeral_part ''abc'' = []" by (simp add: numeral_part_def isspace_def isdigit_def)
  from invalid_value_is_fatal [OF g(1) p] invalid_value_is_fatal [OF g(2) p]
    invalid_value_is_fatal [OF g(3) p] invalid_value_is_fatal [OF g(4) p]
    invalid_value_is_fatal [OF g(5) p] a n
  show ?thesis by simp
qed


text \<open>
  The amended statement leaves \<^verbatim>\<open>-b\<close> values beyond the range of \<^verbatim>\<open>int\<close>
  aside: \<^verbatim>\<open>blocksize\<close> is the one \<^verbatim>\<open>int\<close> among the variables of
  \<^verbatim>\<open>main\<close>, so the \<^verbatim>\<open>long\<close> from \<^verbatim>\<open>atol\<close> is converted before
  the bounds are checked, and \<^verbatim>\<open>-b 4294967296\<close> is taken as block size 0.
\<close>

lemma switch_opt_blocksize_conversion:
  "switch_opt ''prog'' (CHR ''b'', ''4294967296'') main_defaults
     = Inr (main_defaults\<lparr>v_blocksize := 0\<rparr>)"
  by (simp add: switch_opt_def atol_eval to_int_def BS_MAX_def main_defaults_def)

subsection \<open>The file name\<close>

text \<open>
  C6. When option parsing has gone through all options (each was accepted), the arguments
  that are not options are counted. If there is none, or more than one, the process prints
  the message that one file name is expected on the error stream and exits with the failure
  status, and nothing else happens: no file is opened. If there is exactly one, the process
  goes on to \<open>line_writer\<close>, which opens the file of that name.
\<close>

theorem one_filename_expected:
  assumes "getopt_all args = (ovs, rest)"
    and "parse_opts progname ovs main_defaults = Inr v"
  shows "(length rest \<noteq> 1 \<longrightarrow>
            main e (progname # args) = (EXIT_FAILURE, [Err Expecting_one_filename]))
       \<and> (length rest = 1 \<longrightarrow>
            (\<exists>evs. snd (main e (progname # args))
               = prologue (config_of (hd rest) v) @ Open (hd rest) # evs))"
proof (intro conjI impI)
  assume "length rest \<noteq> 1"
  with assms show "main e (progname # args) = (EXIT_FAILURE, [Err Expecting_one_filename])"
    by (simp add: main_def)
next
  assume one: "length rest = 1"
  let ?c = "config_of (hd rest) v"
  from line_writer_starts [of e ?c] obtain evs
    where l: "fst (line_writer e ?c) = prologue ?c @ Open (filename ?c) # evs" by blast
  have f: "filename ?c = hd rest" by (simp add: config_of_def)
  from assms one have "snd (main e (progname # args)) = fst (line_writer e ?c)"
    by (simp add: main_def split: prod.splits sum.splits)
  with l f show "\<exists>evs. snd (main e (progname # args)) = prologue ?c @ Open (hd rest) # evs"
    by simp
qed

theorem one_filename_expected_witness:
  "getopt_all [''-l''] = ([(CHR ''l'', [])], [])
   \<and> getopt_all [''-l'', ''a.txt'', ''b.txt''] = ([(CHR ''l'', [])], [''a.txt'', ''b.txt''])
   \<and> getopt_all [''-l'', ''a.txt''] = ([(CHR ''l'', [])], [''a.txt''])
   \<and> parse_opts ''prog'' [(CHR ''l'', [])] main_defaults = Inr (main_defaults\<lparr>v_excl_lock := 1\<rparr>)
   \<and> main (example_env 3 (\<lambda>i. 2)) [''prog'', ''-l''] = (EXIT_FAILURE, [Err Expecting_one_filename])
   \<and> main (example_env 3 (\<lambda>i. 2)) [''prog'', ''-l'', ''a.txt'', ''b.txt'']
       = (EXIT_FAILURE, [Err Expecting_one_filename])
   \<and> (\<exists>evs. snd (main (example_env 3 (\<lambda>i. 2)) [''prog'', ''-l'', ''a.txt''])
         = prologue (config_of ''a.txt'' (main_defaults\<lparr>v_excl_lock := 1\<rparr>))
             @ Open ''a.txt'' # evs)"
proof -
  have g0: "getopt_all [''-l''] = ([(CHR ''l'', [])], [])"
    and g2: "getopt_all [''-l'', ''a.txt'', ''b.txt''] = ([(CHR ''l'', [])], [''a.txt'', ''b.txt''])"
    and g1: "getopt_all [''-l'', ''a.txt''] = ([(CHR ''l'', [])], [''a.txt''])"
    by (simp_all add: getopt_all_def)
  have p: "parse_opts ''prog'' [(CHR ''l'', [])] main_defaults
             = Inr (main_defaults\<lparr>v_excl_lock := 1\<rparr>)"
    by (simp add: switch_opt_def)
  from one_filename_expected [OF g0 p] one_filename_expected [OF g2 p]
    one_filename_expected [OF g1 p] g0 g1 g2 p
  show ?thesis by simp
qed


subsection \<open>The help option\<close>

text \<open>
  C9 as the claim states it fails: the options are handled in the order of the command line,
  so an option before \<^verbatim>\<open>-h\<close> is checked first. \<^verbatim>\<open>prog -s 0 -h\<close> prints the
  message for the sleep time and exits with the failure status; the usage text is not printed.
\<close>

theorem help_after_invalid_option:
  "main (example_env 3 (\<lambda>i. 2)) [''prog'', ''-s'', ''0'', ''-h'']
     = (EXIT_FAILURE, [Err (Invalid_sleep_time ''0'')])
   \<and> EXIT_FAILURE \<noteq> EXIT_SUCCESS"
  by (simp add: main_def getopt_all_def switch_opt_def atol_def isspace_def isdigit_def
      digits_value_def clamp_long_def consts_defs)

text \<open>
  C9, amended. Let \<^verbatim>\<open>-h\<close> be among the options of the command line, and \<open>pre\<close> the
  options before it. When every option of \<open>pre\<close> is accepted, the process prints the usage
  text and exits with the success status; nothing after \<^verbatim>\<open>-h\<close> is looked at: the
  options that follow are not checked, the other arguments are not counted, and no file is
  opened. The options before \<^verbatim>\<open>-h\<close> are checked first: when one of them is rejected
  (and those before it were accepted), the process ends with what the switch does for that
  option, the failure status and one message on the error stream, and the usage text is not
  printed. For the first \<^verbatim>\<open>-h\<close> of a command line these are the only two outcomes.
\<close>

theorem help_short_circuits:
  assumes "getopt_all args = (pre @ (CHR ''h'', optarg) # post, rest)"
  shows "(parse_opts progname pre main_defaults = Inr v \<longrightarrow>
            main e (progname # args) = (EXIT_SUCCESS, [Out (Usage progname)]))
       \<and> (pre = accepted @ bad # others \<and> parse_opts progname accepted main_defaults = Inr w
            \<and> fst bad \<noteq> CHR ''h'' \<and> switch_opt progname bad w = Inl x \<longrightarrow>
            main e (progname # args) = x \<and> (\<exists>m. x = (EXIT_FAILURE, [Err m])))
       \<and> (CHR ''h'' \<notin> fst ` set pre \<longrightarrow>
            main e (progname # args) = (EXIT_SUCCESS, [Out (Usage progname)])
            \<or> (\<exists>m. main e (progname # args) = (EXIT_FAILURE, [Err m])))"
proof (intro conjI impI)
  assume p: "parse_opts progname pre main_defaults = Inr v"
  have "switch_opt progname (CHR ''h'', optarg) v = Inl (EXIT_SUCCESS, [Out (Usage progname)])"
    by (simp add: switch_opt_def)
  from main_exit_in_switch [OF assms p this]
  show "main e (progname # args) = (EXIT_SUCCESS, [Out (Usage progname)])" .
next
  assume a: "pre = accepted @ bad # others \<and> parse_opts progname accepted main_defaults = Inr w
            \<and> fst bad \<noteq> CHR ''h'' \<and> switch_opt progname bad w = Inl x"
  obtain status evs where x: "x = (status, evs)" by (cases x)
  from assms a
  have g: "getopt_all args = (accepted @ bad # (others @ (CHR ''h'', optarg) # post), rest)"
    by simp
  from a x main_exit_in_switch [OF g, of progname w status evs e]
  show "main e (progname # args) = x" by simp
  from a switch_opt_Inl [of progname bad w x] show "\<exists>m. x = (EXIT_FAILURE, [Err m])" by simp
next
  assume h: "CHR ''h'' \<notin> fst ` set pre"
  show "main e (progname # args) = (EXIT_SUCCESS, [Out (Usage progname)])
            \<or> (\<exists>m. main e (progname # args) = (EXIT_FAILURE, [Err m]))"
  proof (cases "parse_opts progname pre main_defaults")
    case (Inr v)
    have "switch_opt progname (CHR ''h'', optarg) v = Inl (EXIT_SUCCESS, [Out (Usage progname)])"
      by (simp add: switch_opt_def)
    from main_exit_in_switch [OF assms Inr this] show ?thesis by simp
  next
    case (Inl x)
    from parse_opts_Inl [OF this] obtain ovs1 ov ovs2 v1
      where d: "pre = ovs1 @ ov # ovs2" and p1: "parse_opts progname ovs1 main_defaults = Inr v1"
        and sw: "switch_opt progname ov v1 = Inl x" by blast
    from d h have nh: "fst ov \<noteq> CHR ''h''" by auto
    from switch_opt_Inl [OF sw nh] obtain m where x: "x = (EXIT_FAILURE, [Err m])" by blast
    from assms d
    have g: "getopt_all args = (ovs1 @ ov # (ovs2 @ (CHR ''h'', optarg) # post), rest)" by simp
    from sw x main_exit_in_switch [OF g p1, of EXIT_FAILURE "[Err m]" e]
    show ?thesis by simp
  qed
qed

theorem help_short_circuits_witness:
  "getopt_all [''-l'', ''-h'', ''-s'', ''0'']
     = ([(CHR ''l'', [])] @ (CHR ''h'', []) # [(CHR ''s'', ''0'')], [])
   \<and> parse_opts ''prog'' [(CHR ''l'', [])] main_defaults = Inr (main_defaults\<lparr>v_excl_lock := 1\<rparr>)
   \<and> main (example_env 3 (\<lambda>i. 2)) [''prog'', ''-l'', ''-h'', ''-s'', ''0'']
     = (EXIT_SUCCESS, [Out (Usage ''prog'')])
   \<and> getopt_all [''-l'', ''-x'', ''-h'']
     = (([(CHR ''l'', [])] @ (CHR ''?'', []) # []) @ (CHR ''h'', []) # [], [])
   \<and> switch_opt ''prog'' (CHR ''?'', []) (main_defaults\<lparr>v_excl_lock := 1\<rparr>)
     = Inl (EXIT_FAILURE, [Err Gibberish])
   \<and> main (example_env 3 (\<lambda>i. 2)) [''prog'', ''-l'', ''-x'', ''-h'']
     = (EXIT_FAILURE, [Err Gibberish])"
proof -
  have g: "getopt_all [''-l'', ''-h'', ''-s'', ''0'']
     = ([(CHR ''l'', [])] @ (CHR ''h'', []) # [(CHR ''s'', ''0'')], [])"
    by (simp add: getopt_all_def)
  have p: "parse_opts ''prog'' [(CHR ''l'', [])] main_defaults
             = Inr (main_defaults\<lparr>v_excl_lock := 1\<rparr>)"
    by (simp add: switch_opt_def)
  have g2: "getopt_all [''-l'', ''-x'', ''-h'']
     = (([(CHR ''l'', [])] @ (CHR ''?'', []) # []) @ (CHR ''h'', []) # [], [])"
    by (simp add: getopt_all_def)
  have s: "switch_opt ''prog'' (CHR ''?'', []) (main_defaults\<lparr>v_excl_lock := 1\<rparr>)
     = Inl (EXIT_FAILURE, [Err Gibberish])"
    by (simp add: switch_opt_def)
  from help_short_circuits [OF g, where progname = "''prog''"
      and v = "main_defaults\<lparr>v_excl_lock := 1\<rparr>"] p
  have a: "main (example_env 3 (\<lambda>i. 2)) [''prog'', ''-l'', ''-h'', ''-s'', ''0'']
     = (EXIT_SUCCESS, [Out (Usage ''prog'')])" by simp
  from help_short_circuits [OF g2, where accepted = "[(CHR ''l'', [])]"
      and bad = "(CHR ''?'', [])" and others = "[]" and progname = "''prog''"
      and w = "main_defaults\<lparr>v_excl_lock := 1\<rparr>" and x = "(EXIT_FAILURE, [Err Gibberish])"]
    p s
  have b: "main (example_env 3 (\<lambda>i. 2)) [''prog'', ''-l'', ''-x'', ''-h'']
     = (EXIT_FAILURE, [Err Gibberish])" by simp
  from g p a g2 s b show ?thesis by simp
qed

subsection \<open>The block that is written\<close>

text \<open>
  C8 as the claim states it fails: \<^verbatim>\<open>strcpy\<close> copies the terminating NUL of the text
  into the buffer, so the byte after the text is 0 and not the filler. With block size 4 the
  four bytes written in iteration 0 are \<^verbatim>\<open>'0'\<close>, newline, NUL, carriage return.
\<close>

theorem block_payload_has_terminator:
  "Write 4 [CHR ''0'', LF, NUL, CR]
     \<in> set (snd (main (example_env 3 (\<lambda>i. 4)) [''prog'', ''-b'', ''4'', ''-c'', ''1'', ''out.txt'']))
   \<and> Write 4 [CHR ''0'', LF, CR, CR]
     \<notin> set (snd (main (example_env 3 (\<lambda>i. 4)) [''prog'', ''-b'', ''4'', ''-c'', ''1'', ''out.txt'']))
   \<and> NUL \<noteq> CR"
  by (simp add: main_def getopt_all_def switch_opt_def atol_eval consts_defs
      main_defaults_def config_of_def to_int_def line_writer_def prologue_def example_defs
      loop.simps init_state_def body_def count_failure_def Let_def short_write_notice_def
      sprintf_d_nl_def show_int_def dec_digits.simps write_actual_of_def to_size_t_def
      write_buf_size_of_def strcpy_def NUL_def CR_def LF_def to_ssize_t_def)

text \<open>
  C8, amended. In every iteration of a run with a block size above 0, the bytes passed to
  \<^verbatim>\<open>write\<close> are the first \<open>blocksize\<close> bytes of the buffer, and the buffer holds the
  text of the iteration index (decimal digits and a newline), then the NUL that ends the
  copied string, then the filler byte (carriage return) in all the bytes that remain; the
  payload has exactly \<open>blocksize\<close> bytes. The buffer has \<open>max blocksize 1024\<close> bytes at every
  loop test. It is allocated once, before the file is opened, and no later event of the run
  allocates again. (\<open>iterations\<close> and \<open>blocksize\<close> are C \<^verbatim>\<open>int\<close>s, hence below
  \<open>2 ^ 31\<close>.)
\<close>

theorem block_payload:
  assumes "loop_head e c evs st" and "iter st < iterations c" and "iterations c < 2 ^ 31"
    and "0 < blocksize c" and "blocksize c < 2 ^ 31"
  shows "(\<exists>payload rest.
            fst (body c st ws errno)
              = Out (Writing_sequence (iter st) (nat (blocksize c)))
                  # Write (nat (blocksize c)) payload # rest
            \<and> payload
              = take (nat (blocksize c))
                  (show_int (iter st) @ [LF, NUL]
                     @ replicate (nat (max (blocksize c) 1024) - length (show_int (iter st)) - 2) CR)
            \<and> length payload = nat (blocksize c))
       \<and> length (write_buf st) = nat (max (blocksize c) 1024)
       \<and> (\<exists>evs'. fst (line_writer e c) = prologue c @ evs'
             \<and> filter is_Malloc (prologue c) = [Malloc (nat (max (blocksize c) 1024))]
             \<and> filter is_Malloc evs' = [])"
proof (intro conjI)
  let ?n = "nat (max (blocksize c) 1024)"
  let ?txt = "sprintf_d_nl (iter st)"
  let ?buf = "show_int (iter st) @ [LF, NUL] @ replicate (?n - length (show_int (iter st)) - 2) CR"
  have size: "write_buf_size_of (blocksize c) = ?n" by (rule write_buf_size_of_max [OF assms(5)])
  have wa: "write_actual_of (blocksize c) (length ?txt) = nat (blocksize c)"
    using assms(4,5) by (simp add: write_actual_of_def to_size_t_def)
  from loop_head_strcpy [OF assms(1)] size
  have buf: "strcpy (write_buf st) ?txt = ?buf" by (simp add: sprintf_d_nl_def)
  from loop_head_iter [OF assms(1)] assms(2,3) have "length ?txt \<le> 11"
    by (simp add: sprintf_length_bound)
  then have "length (show_int (iter st)) + 2 \<le> ?n" by (simp add: sprintf_d_nl_def)
  then have "length ?buf = ?n" by simp
  moreover have "nat (blocksize c) \<le> ?n" by simp
  ultimately have "min (length ?buf) (nat (blocksize c)) = nat (blocksize c)"
    by (simp only: min_def split: if_splits) simp
  then have len: "length (take (nat (blocksize c)) ?buf) = nat (blocksize c)"
    by (simp only: length_take)
  from wa buf have "\<exists>rest. fst (body c st ws errno)
              = Out (Writing_sequence (iter st) (nat (blocksize c)))
                  # Write (nat (blocksize c)) (take (nat (blocksize c)) ?buf) # rest"
    by (simp add: body_events Let_def)
  with len show "\<exists>payload rest.
            fst (body c st ws errno)
              = Out (Writing_sequence (iter st) (nat (blocksize c)))
                  # Write (nat (blocksize c)) payload # rest
            \<and> payload = take (nat (blocksize c)) ?buf
            \<and> length payload = nat (blocksize c)"
    by blast
  from loop_head_buf_length [OF assms(1,3,5)] size show "length (write_buf st) = ?n" by simp
  from line_writer_Malloc [of e c] prologue_Malloc [of c] size
  show "\<exists>evs'. fst (line_writer e c) = prologue c @ evs'
             \<and> filter is_Malloc (prologue c) = [Malloc ?n]
             \<and> filter is_Malloc evs' = []"
    by simp
qed

theorem block_payload_witness:
  "loop_head (example_env 3 (\<lambda>i. 4)) (example_config 2 5 4) [] (init_state (example_config 2 5 4))
   \<and> iter (init_state (example_config 2 5 4)) < iterations (example_config 2 5 4)
   \<and> iterations (example_config 2 5 4) < 2 ^ 31
   \<and> 0 < blocksize (example_config 2 5 4) \<and> blocksize (example_config 2 5 4) < 2 ^ 31
   \<and> (\<exists>rest. fst (body (example_config 2 5 4) (init_state (example_config 2 5 4)) 4 0)
         = Out (Writing_sequence 0 4) # Write 4 [CHR ''0'', LF, NUL, CR] # rest)
   \<and> length (write_buf (init_state (example_config 2 5 4))) = 1024"
proof -
  let ?c = "example_config 2 5 4"
  have h: "loop_head (example_env 3 (\<lambda>i. 4)) ?c [] (init_state ?c)" by (rule loop_head.start)
  have a: "iter (init_state ?c) < iterations ?c" "iterations ?c < 2 ^ 31"
    "0 < blocksize ?c" "blocksize ?c < 2 ^ 31"
    by (simp_all add: example_config_def init_state_def)
  have r: "replicate (1024 - Suc 0 - 2) CR = CR # replicate 1020 CR"
    by (simp add: replicate_Suc [symmetric] del: replicate_Suc)
  from block_payload [OF h a, of 4 0] h a r show ?thesis
    by (auto simp: example_config_def init_state_def show_int_def dec_digits.simps)
qed

end
